theory Spec2Isabelle
  imports Complex_Main
begin

section \<open>JavaScript values and strings\<close>

text \<open>
  The serverless handlers of \<^verbatim>\<open>api/query.js\<close> receive and send JSON. A value of the
  handlers is a JSON value or \<^verbatim>\<open>undefined\<close>. An object is the list of its properties;
  the first binding of a name is the property's value.
\<close>

datatype json =
    JUndefined
  | JNull
  | JBool bool
  | JNum real
  | JStr string
  | JArr "json list"
  | JObj "(string \<times> json) list"

text \<open>JavaScript truthiness: \<^verbatim>\<open>undefined\<close>, \<^verbatim>\<open>null\<close>, \<^verbatim>\<open>false\<close>, \<^verbatim>\<open>0\<close> and
  \<^verbatim>\<open>''\<close> are falsy, every other value (also an empty array or object) is truthy.\<close>

fun truthy :: "json \<Rightarrow> bool" where
  "truthy JUndefined = False"
| "truthy JNull = False"
| "truthy (JBool b) = b"
| "truthy (JNum x) = (x \<noteq> 0)"
| "truthy (JStr s) = (s \<noteq> [])"
| "truthy (JArr xs) = True"
| "truthy (JObj kvs) = True"

text \<open>\<^verbatim>\<open>typeof v === 'string'\<close>.\<close>

fun is_string :: "json \<Rightarrow> bool" where
  "is_string (JStr s) = True"
| "is_string v = False"

text \<open>
  Errors are values. \<^verbatim>\<open>Error msg\<close> is \<^verbatim>\<open>new Error(msg)\<close> thrown by the code itself,
  \<^verbatim>\<open>SyntaxError msg\<close> is what \<^verbatim>\<open>JSON.parse\<close> or \<^verbatim>\<open>response.json()\<close> throws,
  \<^verbatim>\<open>NetworkError msg\<close> a rejected \<^verbatim>\<open>fetch\<close> or a failed request stream,
  \<^verbatim>\<open>TypeError msg\<close> the engine's error on reading a property of \<^verbatim>\<open>null\<close> or
  \<^verbatim>\<open>undefined\<close> and on converting an object that has no primitive value, and
  \<^verbatim>\<open>URIError msg\<close> what \<^verbatim>\<open>encodeURIComponent\<close> and \<^verbatim>\<open>decodeURIComponent\<close> throw.
\<close>

datatype js_error =
    Error string
  | SyntaxError string
  | TypeError string
  | NetworkError string
  | URIError string

fun message :: "js_error \<Rightarrow> string" where
  "message (Error m) = m"
| "message (SyntaxError m) = m"
| "message (TypeError m) = m"
| "message (NetworkError m) = m"
| "message (URIError m) = m"

text \<open>
  Reading the property \<^verbatim>\<open>v.name\<close> for the names the handlers read (\<^verbatim>\<open>query\<close>,
  \<^verbatim>\<open>agent_type\<close>, \<^verbatim>\<open>include_knowledge_base\<close>, \<^verbatim>\<open>candidates\<close>, \<^verbatim>\<open>content\<close>,
  \<^verbatim>\<open>parts\<close>, \<^verbatim>\<open>text\<close>, \<^verbatim>\<open>usageMetadata\<close>): none of them is a member of a
  built-in prototype, so only an object can have it, and on \<^verbatim>\<open>null\<close> and
  \<^verbatim>\<open>undefined\<close> the read throws.
\<close>

fun get_prop :: "json \<Rightarrow> string \<Rightarrow> js_error + json" where
  "get_prop JUndefined name =
     Inl (TypeError (''Cannot read properties of undefined (reading '' @ name @ '')''))"
| "get_prop JNull name =
     Inl (TypeError (''Cannot read properties of null (reading '' @ name @ '')''))"
| "get_prop (JObj kvs) name =
     Inr (case map_of kvs name of None \<Rightarrow> JUndefined | Some v \<Rightarrow> v)"
| "get_prop v name = Inr JUndefined"

text \<open>Reading the element \<^verbatim>\<open>v[0]\<close>: the first element of an array, the first
  character of a string, the property \<^verbatim>\<open>"0"\<close> of an object.\<close>

fun get_index0 :: "json \<Rightarrow> js_error + json" where
  "get_index0 JUndefined =
     Inl (TypeError ''Cannot read properties of undefined (reading 0)'')"
| "get_index0 JNull =
     Inl (TypeError ''Cannot read properties of null (reading 0)'')"
| "get_index0 (JArr xs) = Inr (case xs of [] \<Rightarrow> JUndefined | x # _ \<Rightarrow> x)"
| "get_index0 (JStr s) = Inr (case s of [] \<Rightarrow> JUndefined | c # _ \<Rightarrow> JStr [c])"
| "get_index0 (JObj kvs) =
     Inr (case map_of kvs ''0'' of None \<Rightarrow> JUndefined | Some v \<Rightarrow> v)"
| "get_index0 v = Inr JUndefined"

text \<open>\<^verbatim>\<open>s.endsWith(t)\<close> and \<^verbatim>\<open>s.includes(t)\<close>.\<close>

definition endsWith :: "string \<Rightarrow> string \<Rightarrow> bool" where
  "endsWith s t = (length t \<le> length s \<and> drop (length s - length t) s = t)"

fun includes_str :: "string \<Rightarrow> string \<Rightarrow> bool" where
  "includes_str [] t = (t = [])"
| "includes_str (c # cs) t = (take (length t) (c # cs) = t \<or> includes_str cs t)"

text \<open>The decimal digits of a natural number, as a template literal prints it.\<close>

definition digit_char :: "nat \<Rightarrow> char" where
  "digit_char d = ''0123456789'' ! d"

function show_nat :: "nat \<Rightarrow> string" where
  "show_nat n = (if n < 10 then [digit_char n] else show_nat (n div 10) @ [digit_char (n mod 10)])"
  by pat_completeness auto
termination
  by (relation "measure (\<lambda>n. n)") auto

declare show_nat.simps [simp del]

section \<open>The query API: \<^verbatim>\<open>POST /api/query/ask\<close>\<close>

record request =
  req_method :: string
  req_url :: string
  req_body :: json
  raw_json :: "js_error + json"

record response =
  res_status :: nat
  res_body :: json

text \<open>
  What one \<^verbatim>\<open>fetch\<close> to the external generation service comes back with: the request
  is rejected (or the reply's body cannot be read), the reply is not \<^verbatim>\<open>ok\<close> (status
  and body text), its body is not JSON, or it is \<^verbatim>\<open>ok\<close> with parsed JSON data.
\<close>

datatype fetch_result =
    FetchRejected string
  | HttpNotOk nat string
  | BodyNotJson string
  | HttpOk json

text \<open>
  \<^verbatim>\<open>callGeminiAPI(query, agentType)\<close> first reads \<^verbatim>\<open>systemPrompts[agentType]\<close>,
  which converts \<^verbatim>\<open>agentType\<close> to a property key. The conversion of an object calls
  its \<^verbatim>\<open>toString\<close>: an object parsed from JSON that has a property of its own named
  \<^verbatim>\<open>toString\<close> has no callable one, and the conversion throws a \<^verbatim>\<open>TypeError\<close>;
  an array is joined, which converts its elements other than \<^verbatim>\<open>null\<close> the same way;
  any other value converts. The read comes before the \<^verbatim>\<open>try\<close> and the \<^verbatim>\<open>fetch\<close>,
  so a throw there means that no call is made. Whatever the read finds (a prompt, or a
  member of the prototype of \<^verbatim>\<open>systemPrompts\<close>) is printed into the prompt text
  without an error.
\<close>

fun to_string_throws :: "json \<Rightarrow> bool" where
  "to_string_throws (JObj kvs) = (''toString'' \<in> set (map fst kvs))"
| "to_string_throws (JArr xs) = list_ex to_string_throws xs"
| "to_string_throws v = False"

text \<open>
  \<open>gemini_reply\<close> is the rest of \<^verbatim>\<open>callGeminiAPI\<close>, after the \<^verbatim>\<open>fetch\<close> has come
  back with \<open>fr\<close>. The API key is a non-empty constant, so the function reaches the
  \<^verbatim>\<open>fetch\<close> whenever the key conversion does not throw, and makes it exactly once;
  its \<^verbatim>\<open>catch\<close> logs and rethrows. The prompt text sent to the service (the agent's
  framing and the user's question) has no part in the control flow and is not modelled.
  \<open>now\<close> is \<^verbatim>\<open>new Date().toISOString()\<close>.
\<close>

definition invalid_structure :: "json \<Rightarrow> js_error + bool" where
  "invalid_structure data =
     (case get_prop data ''candidates'' of
        Inl e \<Rightarrow> Inl e
      | Inr cands \<Rightarrow>
          if \<not> truthy cands then Inr True
          else (case get_index0 cands of
                  Inl e \<Rightarrow> Inl e
                | Inr c0 \<Rightarrow>
                    if \<not> truthy c0 then Inr True
                    else (case get_prop c0 ''content'' of
                            Inl e \<Rightarrow> Inl e
                          | Inr ct \<Rightarrow> Inr (\<not> truthy ct))))"

definition read_content :: "json \<Rightarrow> js_error + json" where
  "read_content data =
     (case get_prop data ''candidates'' of
        Inl e \<Rightarrow> Inl e
      | Inr cands \<Rightarrow>
     (case get_index0 cands of
        Inl e \<Rightarrow> Inl e
      | Inr c0 \<Rightarrow>
     (case get_prop c0 ''content'' of
        Inl e \<Rightarrow> Inl e
      | Inr ct \<Rightarrow>
     (case get_prop ct ''parts'' of
        Inl e \<Rightarrow> Inl e
      | Inr ps \<Rightarrow>
     (case get_index0 ps of
        Inl e \<Rightarrow> Inl e
      | Inr p0 \<Rightarrow> get_prop p0 ''text'')))))"

definition gemini_reply :: "fetch_result \<Rightarrow> string \<Rightarrow> json \<Rightarrow> js_error + json" where
  "gemini_reply fr now agentType =
     (case fr of
        FetchRejected m \<Rightarrow> Inl (NetworkError m)
      | HttpNotOk st txt \<Rightarrow>
          Inl (Error (''Gemini API error: '' @ show_nat st @ '' - '' @ txt))
      | BodyNotJson m \<Rightarrow> Inl (SyntaxError m)
      | HttpOk data \<Rightarrow>
          (case invalid_structure data of
             Inl e \<Rightarrow> Inl e
           | Inr True \<Rightarrow> Inl (Error ''Invalid response from Gemini API'')
           | Inr False \<Rightarrow>
               (case read_content data of
                  Inl e \<Rightarrow> Inl e
                | Inr content \<Rightarrow>
                    (case get_prop data ''usageMetadata'' of
                       Inl e \<Rightarrow> Inl e
                     | Inr usage \<Rightarrow>
                         Inr (JObj [
                           (''content'', content),
                           (''agent'', agentType),
                           (''metadata'', JObj [
                              (''model'', JStr ''gemini-pro''),
                              (''timestamp'', JStr now),
                              (''usage'', if truthy usage then usage else JObj [])])])))))"

text \<open>\<^verbatim>\<open>callGeminiAPI\<close>: its result and the number of \<^verbatim>\<open>fetch\<close> calls it made.
  \<open>service\<close> gives the outcome of the \<open>n\<close>-th \<^verbatim>\<open>fetch\<close> to the generation service
  (from 0).\<close>

definition callGeminiAPI ::
  "(nat \<Rightarrow> fetch_result) \<Rightarrow> string \<Rightarrow> json \<Rightarrow> json \<Rightarrow> (js_error + json) \<times> nat" where
  "callGeminiAPI service now query agentType =
     (if to_string_throws agentType
      then (Inl (TypeError ''Cannot convert object to primitive value''), 0)
      else (gemini_reply (service 0) now agentType, 1))"

text \<open>
  The destructuring \<^verbatim>\<open>const { query, agent_type = 'coach', include_knowledge_base = false }
  = body\<close>: it throws on \<^verbatim>\<open>null\<close> and \<^verbatim>\<open>undefined\<close>; a default stands in where
  the property is \<^verbatim>\<open>undefined\<close>.
\<close>

definition destructure :: "json \<Rightarrow> js_error + (json \<times> json \<times> json)" where
  "destructure body =
     (if body = JNull \<or> body = JUndefined
      then Inl (TypeError ''Cannot destructure property query of body'')
      else (case (get_prop body ''query'', get_prop body ''agent_type'',
                  get_prop body ''include_knowledge_base'') of
              (Inr q, Inr a, Inr k) \<Rightarrow>
                Inr (q,
                     if a = JUndefined then JStr ''coach'' else a,
                     if k = JUndefined then JBool False else k)
            | _ \<Rightarrow> Inl (TypeError ''Cannot destructure property query of body'')))"

text \<open>The request body: \<^verbatim>\<open>req.body\<close> when it is truthy, otherwise the raw body read
  from the stream and parsed.\<close>

definition read_body :: "request \<Rightarrow> js_error + json" where
  "read_body req = (if truthy (req_body req) then Inr (req_body req) else raw_json req)"

definition canned_content :: string where
  "canned_content = ''I apologize, but I'' @ [CHR 39] @ ''m experiencing technical difficulties. Please check that your Gemini API key is properly configured and try again.''"

text \<open>The response of the \<^verbatim>\<open>catch\<close> block of the ask branch.\<close>

definition degraded_response :: "string \<Rightarrow> js_error \<Rightarrow> response" where
  "degraded_response now e =
     \<lparr>res_status = 500,
      res_body = JObj [
        (''success'', JBool False),
        (''error'', JStr (message e)),
        (''response'', JObj [
           (''content'', JStr canned_content),
           (''agent'', JStr ''system''),
           (''metadata'', JObj [(''error'', JBool True), (''timestamp'', JStr now)])])]\<rparr>"

definition bad_request_response :: response where
  "bad_request_response =
     \<lparr>res_status = 400,
      res_body = JObj [
        (''success'', JBool False),
        (''error'', JStr ''Query is required and must be a string'')]\<rparr>"

definition answer_response :: "json \<Rightarrow> json \<Rightarrow> json \<Rightarrow> response" where
  "answer_response aiResponse agent_type include_knowledge_base =
     \<lparr>res_status = 200,
      res_body = JObj [
        (''success'', JBool True),
        (''response'', aiResponse),
        (''knowledge_base_results'',
           if truthy include_knowledge_base then JNum 0 else JUndefined),
        (''agent_used'', agent_type)]\<rparr>"

text \<open>
  The ask branch of the handler: the response sent and the number of \<^verbatim>\<open>fetch\<close>
  calls made. Every exception raised inside the \<^verbatim>\<open>try\<close> reaches the \<^verbatim>\<open>catch\<close>,
  which answers 500.
\<close>

definition ask :: "(nat \<Rightarrow> fetch_result) \<Rightarrow> string \<Rightarrow> request \<Rightarrow> response \<times> nat" where
  "ask service now req =
     (case read_body req of
        Inl e \<Rightarrow> (degraded_response now e, 0)
      | Inr body \<Rightarrow>
          (case destructure body of
             Inl e \<Rightarrow> (degraded_response now e, 0)
           | Inr (query, agent_type, include_knowledge_base) \<Rightarrow>
               if \<not> truthy query \<or> \<not> is_string query
               then (bad_request_response, 0)
               else (case callGeminiAPI service now query agent_type of
                       (Inl e, calls) \<Rightarrow> (degraded_response now e, calls)
                     | (Inr aiResponse, calls) \<Rightarrow>
                         (answer_response aiResponse agent_type include_knowledge_base,
                          calls))))"

definition agents_response :: response where
  "agents_response =
     \<lparr>res_status = 200,
      res_body = JObj [
        (''success'', JBool True),
        (''agents'', JArr [
           JObj [(''id'', JStr ''coach''), (''name'', JStr ''Learning Coach''),
                 (''description'', JStr ''Provides personalized learning guidance, motivation, and study tips''),
                 (''icon'', JStr ''sparkles'')],
           JObj [(''id'', JStr ''strategist''), (''name'', JStr ''Learning Strategist''),
                 (''description'', JStr ''Creates comprehensive learning plans and strategic approaches''),
                 (''icon'', JStr ''brain'')]])]\<rparr>"

definition query_not_found :: response where
  "query_not_found =
     \<lparr>res_status = 404,
      res_body = JObj [
        (''success'', JBool False),
        (''error'', JStr ''Query API endpoint not found''),
        (''available_endpoints'', JArr [
           JStr ''POST /ask - Chat with AI agents'',
           JStr ''GET /agents - List available AI agents''])]\<rparr>"

definition is_ask :: "request \<Rightarrow> bool" where
  "is_ask req \<longleftrightarrow>
     req_method req = ''POST'' \<and> (req_url req = ''/api/query/ask'' \<or> endsWith (req_url req) ''/ask'')"

text \<open>The exported handler of the query API.\<close>

definition query_handler :: "(nat \<Rightarrow> fetch_result) \<Rightarrow> string \<Rightarrow> request \<Rightarrow> response \<times> nat" where
  "query_handler service now req =
     (if req_method req = ''OPTIONS'' then (\<lparr>res_status = 200, res_body = JUndefined\<rparr>, 0)
      else if is_ask req then ask service now req
      else if req_method req = ''GET'' \<and>
              (req_url req = ''/api/query/agents'' \<or> endsWith (req_url req) ''/agents'')
      then (agents_response, 0)
      else (query_not_found, 0))"

section \<open>JavaScript numbers\<close>

text \<open>
  A JavaScript number is an IEEE-754 double. A finite double is modelled as the real
  number it is, and every arithmetic operation of the source as the exact operation
  followed by \<open>fl\<close>, the rounding to the nearest double: 53 significant bits, ties
  to the even significand, and below \<open>2\<^sup>-\<^sup>1\<^sup>0\<^sup>2\<^sup>2\<close> the fixed step
  \<open>2\<^sup>-\<^sup>1\<^sup>0\<^sup>7\<^sup>4\<close> of the subnormal numbers. The model has no infinity and no
  NaN: an operation whose exact result is too large for a double (of magnitude
  \<open>2\<^sup>1\<^sup>0\<^sup>2\<^sup>4 - 2\<^sup>9\<^sup>7\<^sup>0\<close> or more) is outside it; no operation of the handlers on
  doubles gets there, the sum of the largest double and a document's size being
  rounded to the largest double. The model does not tell the two zeros apart. Lengths
  and counts are natural numbers: the source's are integers far below \<open>2\<^sup>5\<^sup>3\<close>, on
  which the arithmetic of doubles is exact.
\<close>

text \<open>The number of binary digits of a natural number.\<close>

function bit_length :: "nat \<Rightarrow> nat" where
  "bit_length n = (if n = 0 then 0 else Suc (bit_length (n div 2)))"
  by pat_completeness auto
termination
  by (relation "measure (\<lambda>n. n)") auto

declare bit_length.simps [simp del]

text \<open>For \<open>x < 1\<close>: minus the number of doublings that bring \<open>x\<close> to 1 or above, at
  most \<open>n\<close> of them.\<close>

function scale_down :: "nat \<Rightarrow> real \<Rightarrow> int" where
  "scale_down n x = (if n = 0 \<or> 1 \<le> x then 0 else scale_down (n - 1) (2 * x) - 1)"
  by pat_completeness auto
termination
  by (relation "measure (\<lambda>(n, x). n)") auto

declare scale_down.simps [simp del]

text \<open>The binary exponent of a positive number, not below that of the smallest normal
  double; the power of two with an integer exponent; the distance between the doubles
  around \<open>x\<close>.\<close>

definition binade :: "real \<Rightarrow> int" where
  "binade x = (if 1 \<le> x then int (bit_length (nat \<lfloor>x\<rfloor>)) - 1 else scale_down 1022 x)"

definition pow2 :: "int \<Rightarrow> real" where
  "pow2 e = (if 0 \<le> e then 2 ^ nat e else 1 / 2 ^ nat (- e))"

definition quantum :: "real \<Rightarrow> real" where
  "quantum x = pow2 (binade \<bar>x\<bar> - 52)"

text \<open>The nearest integer, a tie going to the even one.\<close>

definition round_even :: "real \<Rightarrow> int" where
  "round_even y =
     (if y - real_of_int \<lfloor>y\<rfloor> < 1 / 2 then \<lfloor>y\<rfloor>
      else if 1 / 2 < y - real_of_int \<lfloor>y\<rfloor> then \<lfloor>y\<rfloor> + 1
      else if even \<lfloor>y\<rfloor> then \<lfloor>y\<rfloor> else \<lfloor>y\<rfloor> + 1)"

definition fl :: "real \<Rightarrow> real" where
  "fl x = (if x = 0 then 0
           else sgn x * real_of_int (round_even (\<bar>x\<bar> / quantum x)) * quantum x)"

section \<open>The documents API\<close>

text \<open>
  The documents handler keeps its documents in two module-level objects,
  \<^verbatim>\<open>mockDocuments\<close> and \<^verbatim>\<open>mockStats\<close>, which the upload branch mutates. Sizes and
  times are JavaScript numbers: doubles, with every operation rounded by \<open>fl\<close>.
\<close>

record document =
  filename :: string
  file_size :: real
  modified :: real
  source :: string
  course :: "string option"

record documents =
  upload_files :: "document list"
  scraped_files :: "document list"
  docs_total_files :: nat

record stats =
  stats_success :: bool
  stats_total_files :: nat
  total_size_bytes :: real
  total_size_mb :: real
  file_types :: "(string \<times> nat) list"

record store =
  docs :: documents
  stat :: stats

text \<open>The module's state when it is loaded, at time \<open>t0\<close> (\<^verbatim>\<open>Date.now()\<close>, in
  milliseconds).\<close>

definition mockDocuments :: "nat \<Rightarrow> documents" where
  "mockDocuments t0 =
     \<lparr>upload_files = [
        \<lparr>filename = ''sample-document.pdf'', file_size = 1024000,
         modified = fl (real t0 / 1000),
         source = ''upload'', course = None\<rparr>],
      scraped_files = [
        \<lparr>filename = ''course-material.pdf'', file_size = 2048000,
         modified = fl (real t0 / 1000),
         source = ''scraper'', course = Some ''AI Fundamentals''\<rparr>],
      docs_total_files = 2\<rparr>"

definition mockStats :: stats where
  "mockStats =
     \<lparr>stats_success = True, stats_total_files = 2, total_size_bytes = 3072000,
      total_size_mb = fl (307 / 100), file_types = [(''pdf'', 2)]\<rparr>"

definition initial_store :: "nat \<Rightarrow> store" where
  "initial_store t0 = \<lparr>docs = mockDocuments t0, stat = mockStats\<rparr>"

text \<open>Assigning \<^verbatim>\<open>obj[k] = v\<close>: an existing property keeps its place, a new one is
  added last. \<^verbatim>\<open>obj[k] || 0\<close> reads a count, 0 when the property is missing.\<close>

fun set_prop :: "string \<Rightarrow> 'a \<Rightarrow> (string \<times> 'a) list \<Rightarrow> (string \<times> 'a) list" where
  "set_prop k v [] = [(k, v)]"
| "set_prop k v ((k', v') # kvs) =
     (if k' = k then (k, v) # kvs else (k', v') # set_prop k v kvs)"

definition count_of :: "(string \<times> nat) list \<Rightarrow> string \<Rightarrow> nat" where
  "count_of kvs k = (case map_of kvs k of None \<Rightarrow> 0 | Some n \<Rightarrow> n)"

text \<open>\<^verbatim>\<open>Math.round(x)\<close> rounds to the nearest integer, halves upwards.\<close>

definition math_round :: "real \<Rightarrow> real" where
  "math_round x = real_of_int \<lfloor>x + 1 / 2\<rfloor>"

text \<open>
  What the upload branch reads from its environment: \<^verbatim>\<open>Date.now()\<close> for the file
  name, \<^verbatim>\<open>Math.random()\<close>, \<^verbatim>\<open>Date.now()\<close> for the modification time, and
  \<^verbatim>\<open>new Date().toISOString()\<close>. \<^verbatim>\<open>Math.random()\<close> is a double in \<open>[0, 1)\<close>.
\<close>

record upload_env =
  t_filename :: nat
  rnd :: real
  t_modified :: nat
  iso_time :: string

definition sampleText :: string where
  "sampleText = ''This is a sample document that has been successfully uploaded and processed. In a real implementation, this would contain the actual extracted text content from your document.''"

definition newDocument :: "upload_env \<Rightarrow> document" where
  "newDocument env =
     \<lparr>filename = ''uploaded-document-'' @ show_nat (t_filename env) @ ''.pdf'',
      file_size = fl (1024000 + fl (rnd env * 2000000)),
      modified = fl (real (t_modified env) / 1000),
      source = ''upload'',
      course = None\<rparr>"

text \<open>The state after the upload branch: the new document goes to the front of
  \<^verbatim>\<open>upload_files\<close>, and the counters follow.\<close>

definition upload_store :: "upload_env \<Rightarrow> store \<Rightarrow> store" where
  "upload_store env s =
     (let d = newDocument env;
          fileType = ''pdf'';
          ups = d # upload_files (docs s);
          total = length ups + length (scraped_files (docs s));
          bytes = fl (total_size_bytes (stat s) + file_size d)
      in \<lparr>docs = (docs s)\<lparr>upload_files := ups, docs_total_files := total\<rparr>,
          stat = (stat s)\<lparr>
            stats_total_files := total,
            total_size_bytes := bytes,
            total_size_mb := fl (math_round (fl (fl (bytes / (1024 * 1024)) * 100)) / 100),
            file_types :=
              set_prop fileType (count_of (file_types (stat s)) fileType + 1)
                (file_types (stat s))\<rparr>\<rparr>)"

definition upload_response :: "upload_env \<Rightarrow> response" where
  "upload_response env =
     \<lparr>res_status = 200,
      res_body = JObj [
        (''success'', JBool True),
        (''message'', JStr ''File uploaded and processed successfully''),
        (''filename'', JStr (filename (newDocument env))),
        (''file_type'', JStr ''pdf''),
        (''size'', JNum (file_size (newDocument env))),
        (''processed'', JBool True),
        (''processing_result'', JObj [
           (''text'', JStr sampleText),
           (''chunks_created'', JNum 5),
           (''embeddings_generated'', JBool True)]),
        (''metadata'', JObj [
           (''upload_time'', JStr (iso_time env)),
           (''processing_time'', JStr ''2.3s'')])]\<rparr>"

text \<open>The listing and the statistics as the \<^verbatim>\<open>GET\<close> branches send them.\<close>

definition document_json :: "document \<Rightarrow> json" where
  "document_json d =
     JObj ([(''filename'', JStr (filename d)), (''size'', JNum (file_size d)),
            (''modified'', JNum (modified d)), (''source'', JStr (source d))]
           @ (case course d of None \<Rightarrow> [] | Some c \<Rightarrow> [(''course'', JStr c)]))"

definition processed_response :: "store \<Rightarrow> response" where
  "processed_response s =
     \<lparr>res_status = 200,
      res_body = JObj [
        (''success'', JBool True),
        (''upload_files'', JArr (map document_json (upload_files (docs s)))),
        (''scraped_files'', JArr (map document_json (scraped_files (docs s)))),
        (''total_files'', JNum (real (docs_total_files (docs s))))]\<rparr>"

definition stats_response :: "store \<Rightarrow> response" where
  "stats_response s =
     \<lparr>res_status = 200,
      res_body = JObj [
        (''success'', JBool (stats_success (stat s))),
        (''total_files'', JNum (real (stats_total_files (stat s)))),
        (''total_size_bytes'', JNum (total_size_bytes (stat s))),
        (''total_size_mb'', JNum (total_size_mb (stat s))),
        (''file_types'', JObj (map (\<lambda>(k, n). (k, JNum (real n))) (file_types (stat s))))]\<rparr>"

text \<open>
  \<^verbatim>\<open>url.split('/delete/')[1]\<close>: the text after the first \<^verbatim>\<open>/delete/\<close>, up to the
  next one. \<open>after_sep\<close> finds the text after the first separator, \<open>before_sep\<close>
  the text before the first separator (all of it when there is none).
\<close>

fun after_sep :: "string \<Rightarrow> string \<Rightarrow> string option" where
  "after_sep sep [] = (if sep = [] then Some [] else None)"
| "after_sep sep (c # cs) =
     (if take (length sep) (c # cs) = sep then Some (drop (length sep) (c # cs))
      else after_sep sep cs)"

fun before_sep :: "string \<Rightarrow> string \<Rightarrow> string" where
  "before_sep sep [] = []"
| "before_sep sep (c # cs) =
     (if take (length sep) (c # cs) = sep then [] else c # before_sep sep cs)"

definition split_second :: "string \<Rightarrow> string \<Rightarrow> string option" where
  "split_second sep s = map_option (before_sep sep) (after_sep sep s)"

text \<open>
  The delete branch. \<^verbatim>\<open>decodeURIComponent\<close> is the platform's function, a parameter
  here; it throws on a malformed escape, and it prints a missing second part of the split
  as \<^verbatim>\<open>undefined\<close>. The branch sends its acknowledgement and leaves
  \<^verbatim>\<open>mockDocuments\<close> and \<^verbatim>\<open>mockStats\<close> as they are: between the split and the
  response it has only the comment \<^verbatim>\<open>In a real implementation, this would: 1. Delete the
  file from storage 2. Remove embeddings from vector database 3. Update metadata in
  database\<close>.
\<close>

definition deleted_name :: "string \<Rightarrow> string" where
  "deleted_name url =
     (case split_second ''/delete/'' url of None \<Rightarrow> ''undefined'' | Some n \<Rightarrow> n)"

definition delete_response :: "(string \<Rightarrow> js_error + string) \<Rightarrow> string \<Rightarrow> response" where
  "delete_response decodeURIComponent url =
     (case decodeURIComponent (deleted_name url) of
           Inl e \<Rightarrow>
             \<lparr>res_status = 500,
              res_body = JObj [(''success'', JBool False),
                               (''detail'', JStr (''Delete failed: '' @ message e))]\<rparr>
         | Inr decoded \<Rightarrow>
             \<lparr>res_status = 200,
              res_body = JObj [(''success'', JBool True),
                               (''message'', JStr (''Document '' @ decoded @ '' deleted successfully''))]\<rparr>)"

definition documents_not_found :: response where
  "documents_not_found =
     \<lparr>res_status = 404,
      res_body = JObj [
        (''success'', JBool False),
        (''detail'', JStr ''Documents API endpoint not found''),
        (''available_endpoints'', JArr [
           JStr ''GET /processed - List all processed documents'',
           JStr ''GET /stats - Get document statistics'',
           JStr ''POST /upload - Upload a new document'',
           JStr ''DELETE /delete/{filename} - Delete a document''])]\<rparr>"

definition is_upload :: "request \<Rightarrow> bool" where
  "is_upload req \<longleftrightarrow>
     req_method req = ''POST'' \<and>
     (req_url req = ''/api/documents/upload'' \<or> endsWith (req_url req) ''/upload'')"

definition is_delete :: "request \<Rightarrow> bool" where
  "is_delete req \<longleftrightarrow> req_method req = ''DELETE'' \<and> includes_str (req_url req) ''/delete/''"

text \<open>The exported handler of the documents API: the response sent and the module state
  afterwards.\<close>

definition documents_handler ::
  "(string \<Rightarrow> js_error + string) \<Rightarrow> upload_env \<Rightarrow> request \<Rightarrow> store \<Rightarrow> response \<times> store" where
  "documents_handler decodeURIComponent env req s =
     (if req_method req = ''OPTIONS'' then (\<lparr>res_status = 200, res_body = JUndefined\<rparr>, s)
      else if req_method req = ''GET'' \<and>
              (req_url req = ''/api/documents/processed'' \<or> endsWith (req_url req) ''/processed'')
      then (processed_response s, s)
      else if req_method req = ''GET'' \<and>
              (req_url req = ''/api/documents/stats'' \<or> endsWith (req_url req) ''/stats'')
      then (stats_response s, s)
      else if is_upload req then (upload_response env, upload_store env s)
      else if is_delete req then (delete_response decodeURIComponent (req_url req), s)
      else (documents_not_found, s))"

section \<open>The client: the upload component and the documents list\<close>

text \<open>
  The upload component (\<^verbatim>\<open>FileUpload\<close>) keeps one entry per dropped file. An entry's
  status is \<^verbatim>\<open>'uploading' | 'processing' | 'success' | 'error'\<close>; the component
  sets \<^verbatim>\<open>'uploading'\<close>, \<^verbatim>\<open>'success'\<close> and \<^verbatim>\<open>'error'\<close>. A file is identified by
  its name; the entry's id is drawn when the file is dropped. The entry's error is kept
  as the value whose string form is the message shown; where \<^verbatim>\<open>new Error(v)\<close> cannot
  convert \<open>v\<close> to a string, the \<^verbatim>\<open>catch\<close> shows the message of that error.
\<close>

datatype upload_status = Uploading | Processing | Success | StatusError

record uploaded_file =
  uf_file :: string
  uf_status :: upload_status
  uf_result :: "json option"
  uf_error :: "json option"
  uf_id :: string

text \<open>\<^verbatim>\<open>onDrop(acceptedFiles)\<close>: every accepted file, with the id drawn for it, gets a
  new entry with status \<^verbatim>\<open>'uploading'\<close> after the entries there are, and its upload is
  started.\<close>

definition new_entry :: "string \<times> string \<Rightarrow> uploaded_file" where
  "new_entry a =
     \<lparr>uf_file = fst a, uf_status = Uploading, uf_result = None, uf_error = None,
      uf_id = snd a\<rparr>"

definition onDrop :: "(string \<times> string) list \<Rightarrow> uploaded_file list \<Rightarrow> uploaded_file list" where
  "onDrop acceptedFiles prev = prev @ map new_entry acceptedFiles"

text \<open>\<^verbatim>\<open>response.ok\<close>, and the end of \<^verbatim>\<open>uploadFile\<close> when the response \<open>r\<close> to
  the upload of entry \<open>i\<close> has arrived: \<^verbatim>\<open>'success'\<close> with the result when the response
  is ok and its \<^verbatim>\<open>success\<close> is truthy, \<^verbatim>\<open>'error'\<close> otherwise.\<close>

definition response_ok :: "response \<Rightarrow> bool" where
  "response_ok r \<longleftrightarrow> 200 \<le> res_status r \<and> res_status r \<le> 299"

definition upload_failed :: "json \<Rightarrow> uploaded_file \<Rightarrow> uploaded_file" where
  "upload_failed result f =
     (case get_prop result ''error'' of
        Inl e \<Rightarrow> f\<lparr>uf_status := StatusError, uf_error := Some (JStr (message e))\<rparr>
      | Inr v \<Rightarrow>
          f\<lparr>uf_status := StatusError,
            uf_error :=
              Some (if \<not> truthy v then JStr ''Upload failed''
                    else if to_string_throws v
                    then JStr ''Cannot convert object to primitive value''
                    else v)\<rparr>)"

definition upload_finished :: "response \<Rightarrow> uploaded_file \<Rightarrow> uploaded_file" where
  "upload_finished r f =
     (if response_ok r
      then (case get_prop (res_body r) ''success'' of
              Inl e \<Rightarrow> f\<lparr>uf_status := StatusError, uf_error := Some (JStr (message e))\<rparr>
            | Inr v \<Rightarrow>
                if truthy v then f\<lparr>uf_status := Success, uf_result := Some (res_body r)\<rparr>
                else upload_failed (res_body r) f)
      else upload_failed (res_body r) f)"

definition uploadFile_done :: "string \<Rightarrow> response \<Rightarrow> uploaded_file list \<Rightarrow> uploaded_file list" where
  "uploadFile_done i r prev = map (\<lambda>f. if uf_id f = i then upload_finished r f else f) prev"

text \<open>
  The client and the server together: the component's entries, the ids of the uploads
  that were sent and are not answered yet, and the server's module state. One step is a
  drop of files, or the server answering one of the uploads in flight.
\<close>

record system =
  entries :: "uploaded_file list"
  in_flight :: "string list"
  server :: store

definition upload_post :: "string \<Rightarrow> request" where
  "upload_post file =
     \<lparr>req_method = ''POST'', req_url = ''/api/documents/upload'',
      req_body = JObj [(''file'', JStr file), (''create_embeddings'', JStr ''true'')],
      raw_json = Inl (SyntaxError ''Unexpected token'')\<rparr>"

definition file_of :: "string \<Rightarrow> uploaded_file list \<Rightarrow> string" where
  "file_of i fs = (case filter (\<lambda>f. uf_id f = i) fs of [] \<Rightarrow> [] | f # _ \<Rightarrow> uf_file f)"

definition drop_files :: "(string \<times> string) list \<Rightarrow> system \<Rightarrow> system" where
  "drop_files acceptedFiles sys =
     sys\<lparr>entries := onDrop acceptedFiles (entries sys),
         in_flight := in_flight sys @ map snd acceptedFiles\<rparr>"

definition answer_upload ::
  "(string \<Rightarrow> js_error + string) \<Rightarrow> upload_env \<Rightarrow> string \<Rightarrow> system \<Rightarrow> system" where
  "answer_upload decodeURIComponent env i sys =
     (if i \<in> set (in_flight sys)
      then (case documents_handler decodeURIComponent env
                   (upload_post (file_of i (entries sys))) (server sys) of
              (r, s') \<Rightarrow>
                \<lparr>entries = uploadFile_done i r (entries sys),
                 in_flight = remove1 i (in_flight sys),
                 server = s'\<rparr>)
      else sys)"

text \<open>
  The documents list (\<^verbatim>\<open>DocumentsList\<close>). \<^verbatim>\<open>fetchDocuments\<close> shows the documents kept
  in the browser's local storage before the server's upload files; the server's
  listing always has status 200 and \<^verbatim>\<open>success: true\<close>. \<^verbatim>\<open>deleteDocument\<close>, once
  confirmed, takes the file name out of the local storage, sends the \<^verbatim>\<open>DELETE\<close>
  request, whose answer it only logs, and fetches the list again.
  \<^verbatim>\<open>encodeURIComponent\<close> is the platform's function, a parameter here; when it
  throws, no request is sent, the error is logged, and the list is fetched all the same.
\<close>

definition fetchDocuments :: "document list \<Rightarrow> store \<Rightarrow> documents" where
  "fetchDocuments uploadedDocs s =
     \<lparr>upload_files = uploadedDocs @ upload_files (docs s),
      scraped_files = scraped_files (docs s),
      docs_total_files =
        length uploadedDocs + length (upload_files (docs s)) + length (scraped_files (docs s))\<rparr>"

definition delete_call :: "string \<Rightarrow> request" where
  "delete_call encoded =
     \<lparr>req_method = ''DELETE'',
      req_url = ''/api/documents/delete/'' @ encoded,
      req_body = JUndefined, raw_json = Inl (SyntaxError ''Unexpected end of JSON input'')\<rparr>"

definition deleteDocument ::
  "(string \<Rightarrow> js_error + string) \<Rightarrow> (string \<Rightarrow> js_error + string) \<Rightarrow> upload_env \<Rightarrow> bool
     \<Rightarrow> string \<Rightarrow> document list \<times> store \<Rightarrow> document list \<times> store" where
  "deleteDocument encodeURIComponent decodeURIComponent env confirmed name st =
     (if \<not> confirmed then st
      else (filter (\<lambda>d. filename d \<noteq> name) (fst st),
            (case encodeURIComponent name of
               Inl e \<Rightarrow> snd st
             | Inr encoded \<Rightarrow>
                 snd (documents_handler decodeURIComponent env (delete_call encoded)
                        (snd st)))))"

section \<open>Reading a response\<close>

text \<open>\<open>get_path v names\<close> follows a chain of property reads; \<open>prop_names\<close> is the list
  of an object's property names; \<open>mentions w v\<close> holds when the word \<open>w\<close> is a
  property name or a string value anywhere in \<open>v\<close>.\<close>

fun get_path :: "json \<Rightarrow> string list \<Rightarrow> js_error + json" where
  "get_path v [] = Inr v"
| "get_path v (k # ks) = (case get_prop v k of Inl e \<Rightarrow> Inl e | Inr w \<Rightarrow> get_path w ks)"

fun prop_names :: "json \<Rightarrow> string list" where
  "prop_names (JObj kvs) = map fst kvs"
| "prop_names v = []"

fun mentions :: "string \<Rightarrow> json \<Rightarrow> bool" where
  "mentions w (JStr s) = (s = w)"
| "mentions w (JArr xs) = list_ex (mentions w) xs"
| "mentions w (JObj kvs) = list_ex (\<lambda>kv. fst kv = w \<or> mentions w (snd kv)) kvs"
| "mentions w v = False"

section \<open>The pipeline components that are not part of the serverless handlers\<close>

text \<open>
  The Chunker and the Vector Store belong to the backend pipeline, which the serverless
  handlers above do not contain; the handlers only carry their settings
  (\<^verbatim>\<open>chunk_size: 500\<close>, \<^verbatim>\<open>overlap_size: 50\<close>) and the client only calls them
  (\<^verbatim>\<open>queryApi.searchKnowledgeBase\<close>). The definitions of this section follow the
  specification's description of the two components.
\<close>

datatype pipeline_error =
    UnsupportedFormat
  | ExtractionFailed
  | InvalidConfiguration
  | EmbeddingBackendUnavailable
  | VectorStoreUnavailable
  | AlreadyInProgress
  | InvalidArgument

subsection \<open>Chunker\<close>

text \<open>
  Modelled from the spec: the Chunker, \<^verbatim>\<open>chunk(spans, target_tokens, overlap_tokens)\<close>,
  is missing from the sources. A span is the list of its tokens, and the end of a span
  is a sentence or paragraph boundary. The chunker walks the token stream: when the
  rest fits into \<open>target_tokens\<close> it is the last chunk; otherwise the chunk ends at the
  last boundary inside the window that lies more than \<open>overlap_tokens\<close> tokens in, or,
  when there is none, after exactly \<open>target_tokens\<close> tokens (the hard cut); the next
  chunk starts \<open>overlap_tokens\<close> tokens before the cut. No tokens give no chunks, and
  \<open>overlap_tokens \<ge> target_tokens\<close> fails with \<open>InvalidConfiguration\<close>. A chunk is
  the list of its tokens; its offset range in the source is left out.
\<close>

type_synonym token = "string \<times> bool"

fun mark_span :: "string list \<Rightarrow> token list" where
  "mark_span [] = []"
| "mark_span [w] = [(w, True)]"
| "mark_span (w # ws) = (w, False) # mark_span ws"

definition token_stream :: "string list list \<Rightarrow> token list" where
  "token_stream spans = concat (map mark_span spans)"

definition boundary_cuts :: "nat \<Rightarrow> nat \<Rightarrow> token list \<Rightarrow> nat list" where
  "boundary_cuts target overlap ts =
     filter (\<lambda>c. snd (ts ! (c - 1))) (rev [Suc overlap ..< Suc target])"

definition cut_point :: "nat \<Rightarrow> nat \<Rightarrow> token list \<Rightarrow> nat" where
  "cut_point target overlap ts =
     (case boundary_cuts target overlap ts of [] \<Rightarrow> target | c # _ \<Rightarrow> c)"

function chunk_tokens :: "nat \<Rightarrow> nat \<Rightarrow> token list \<Rightarrow> token list list" where
  "chunk_tokens target overlap ts =
     (if target \<le> overlap \<or> ts = [] then []
      else if length ts \<le> target then [ts]
      else take (cut_point target overlap ts) ts
           # chunk_tokens target overlap (drop (cut_point target overlap ts - overlap) ts))"
  by pat_completeness auto
termination
proof (relation "measure (\<lambda>(target, overlap, ts). length ts)")
  show "wf (measure (\<lambda>(target, overlap, ts). length ts))"
    by simp
next
  fix target overlap :: nat and ts :: "token list"
  assume a: "\<not> (target \<le> overlap \<or> ts = [])" and b: "\<not> length ts \<le> target"
  have "overlap < cut_point target overlap ts"
  proof (cases "boundary_cuts target overlap ts")
    case Nil
    then show ?thesis using a by (simp add: cut_point_def)
  next
    case (Cons c cs)
    then have "c \<in> set (boundary_cuts target overlap ts)" by simp
    then have "overlap < c" by (auto simp: boundary_cuts_def)
    then show ?thesis using Cons by (simp add: cut_point_def)
  qed
  then show "((target, overlap, drop (cut_point target overlap ts - overlap) ts),
              (target, overlap, ts))
             \<in> measure (\<lambda>(target, overlap, ts). length ts)"
    using a by (cases ts) auto
qed

declare chunk_tokens.simps [simp del]

text \<open>Modelled from the spec: \<^verbatim>\<open>chunk(spans, target_tokens, overlap_tokens)\<close>, the
  Chunker's operation, missing from the sources; \<open>overlap_tokens < target_tokens\<close> is
  its precondition.\<close>

definition chunk :: "string list list \<Rightarrow> nat \<Rightarrow> nat \<Rightarrow> pipeline_error + string list list" where
  "chunk spans target_tokens overlap_tokens =
     (if target_tokens \<le> overlap_tokens then Inl InvalidConfiguration
      else Inr (map (map fst) (chunk_tokens target_tokens overlap_tokens (token_stream spans))))"

text \<open>Two consecutive chunks share \<open>n\<close> tokens when the last \<open>n\<close> tokens of the first
  are the first \<open>n\<close> tokens of the second.\<close>

definition shares :: "nat \<Rightarrow> 'a list \<Rightarrow> 'a list \<Rightarrow> bool" where
  "shares n c1 c2 \<longleftrightarrow>
     n \<le> length c1 \<and> n \<le> length c2 \<and> drop (length c1 - n) c1 = take n c2"

fun consecutive_share :: "nat \<Rightarrow> 'a list list \<Rightarrow> bool" where
  "consecutive_share n (c1 # c2 # cs) = (shares n c1 c2 \<and> consecutive_share n (c2 # cs))"
| "consecutive_share n cs = True"

subsection \<open>Vector Store\<close>

text \<open>
  Modelled from the spec: the Vector Store (\<^verbatim>\<open>upsert\<close>, \<^verbatim>\<open>query\<close>) is missing from the
  sources. The store is an index keyed by chunk id: a list of records, one per chunk
  id. \<open>upsert\<close> inserts or replaces by chunk id. \<open>query\<close> scores every record (that
  passes the optional filter) against the query vector with the similarity function of
  the store, orders the hits by descending score, ties by lower chunk id, and returns
  the first \<open>k\<close>; \<open>k \<le> 0\<close> fails with \<open>InvalidArgument\<close>.
\<close>

record embedding =
  document_id :: nat
  chunk_id :: nat
  vector :: "real list"
  metadata :: string

definition has_chunk :: "nat \<Rightarrow> embedding list \<Rightarrow> bool" where
  "has_chunk c st = list_ex (\<lambda>x. chunk_id x = c) st"

text \<open>Modelled from the spec: \<^verbatim>\<open>upsert(document_id, chunk_id, vector, metadata)\<close>, the
  Vector Store's insert-or-replace keyed by chunk id, missing from the sources.\<close>

definition upsert :: "embedding \<Rightarrow> embedding list \<Rightarrow> embedding list" where
  "upsert e st =
     (if has_chunk (chunk_id e) st
      then map (\<lambda>x. if chunk_id x = chunk_id e then e else x) st
      else st @ [e])"

text \<open>Upserting the chunks of a document, in their order.\<close>

definition make_embedding :: "nat \<Rightarrow> nat \<times> real list \<times> string \<Rightarrow> embedding" where
  "make_embedding d c =
     \<lparr>document_id = d, chunk_id = fst c, vector = fst (snd c), metadata = snd (snd c)\<rparr>"

definition upsert_document :: "nat \<Rightarrow> (nat \<times> real list \<times> string) list \<Rightarrow> embedding list \<Rightarrow> embedding list" where
  "upsert_document d chunks st = fold (\<lambda>c. upsert (make_embedding d c)) chunks st"

text \<open>The record that a sequence of upserts leaves for a chunk id is the last one
  upserted with that id; \<open>settle\<close> replaces a record by it.\<close>

fun last_upsert :: "embedding list \<Rightarrow> nat \<Rightarrow> embedding option" where
  "last_upsert [] c = None"
| "last_upsert (e # es) c =
     (case last_upsert es c of
        Some x \<Rightarrow> Some x
      | None \<Rightarrow> if chunk_id e = c then Some e else None)"

definition settle :: "embedding list \<Rightarrow> embedding \<Rightarrow> embedding" where
  "settle es x = (case last_upsert es (chunk_id x) of None \<Rightarrow> x | Some e \<Rightarrow> e)"

text \<open>What a query can return for a document: its records in the store.\<close>

definition document_content :: "nat \<Rightarrow> embedding list \<Rightarrow> embedding set" where
  "document_content d st = set (filter (\<lambda>x. document_id x = d) st)"

text \<open>The dot product, the similarity of normalised vectors.\<close>

definition dot :: "real list \<Rightarrow> real list \<Rightarrow> real" where
  "dot xs ys = sum_list (map (\<lambda>(x, y). x * y) (zip xs ys))"

text \<open>A hit is a chunk id with its score. \<open>ranks_before a b\<close>: \<open>a\<close> has the higher
  score, or the same score and the lower or same chunk id.\<close>

definition ranks_before :: "nat \<times> real \<Rightarrow> nat \<times> real \<Rightarrow> bool" where
  "ranks_before a b \<longleftrightarrow> snd b < snd a \<or> (snd a = snd b \<and> fst a \<le> fst b)"

fun insert_hit :: "nat \<times> real \<Rightarrow> (nat \<times> real) list \<Rightarrow> (nat \<times> real) list" where
  "insert_hit h [] = [h]"
| "insert_hit h (x # xs) = (if ranks_before h x then h # x # xs else x # insert_hit h xs)"

fun rank_hits :: "(nat \<times> real) list \<Rightarrow> (nat \<times> real) list" where
  "rank_hits [] = []"
| "rank_hits (h # hs) = insert_hit h (rank_hits hs)"

definition candidates ::
  "(real list \<Rightarrow> real list \<Rightarrow> real) \<Rightarrow> embedding list \<Rightarrow> real list \<Rightarrow> (embedding \<Rightarrow> bool) option
     \<Rightarrow> (nat \<times> real) list" where
  "candidates sim st v flt =
     map (\<lambda>x. (chunk_id x, sim v (vector x)))
       (case flt of None \<Rightarrow> st | Some p \<Rightarrow> filter p st)"

text \<open>Modelled from the spec: \<^verbatim>\<open>query(vector, k, filter?)\<close>, the Vector Store's
  similarity search, missing from the sources.\<close>

definition query ::
  "(real list \<Rightarrow> real list \<Rightarrow> real) \<Rightarrow> embedding list \<Rightarrow> real list \<Rightarrow> int \<Rightarrow> (embedding \<Rightarrow> bool) option
     \<Rightarrow> pipeline_error + (nat \<times> real) list" where
  "query sim st v k flt =
     (if k \<le> 0 then Inl InvalidArgument
      else Inr (take (nat k) (rank_hits (candidates sim st v flt))))"

section \<open>Concrete requests, services and stores\<close>

text \<open>A well-formed reply of the generation service, and two services: one that always
  answers, one whose first call fails with status 503 and whose later calls answer.\<close>

definition good_reply :: json where
  "good_reply =
     JObj [(''candidates'', JArr [
       JObj [(''content'', JObj [(''parts'', JArr [JObj [(''text'', JStr ''Hello'')]])])]])]"

definition steady_service :: "nat \<Rightarrow> fetch_result" where
  "steady_service n = HttpOk good_reply"

definition flaky_service :: "nat \<Rightarrow> fetch_result" where
  "flaky_service n = (if n = 0 then HttpNotOk 503 ''Service Unavailable'' else HttpOk good_reply)"

text \<open>Requests to the ask endpoint: with a parsed body (one of them with an object as
  its agent type); with the raw body \<^verbatim>\<open>null\<close>; with no body at all.\<close>

definition ask_request :: "json \<Rightarrow> request" where
  "ask_request body =
     \<lparr>req_method = ''POST'', req_url = ''/api/query/ask'', req_body = body,
      raw_json = Inr body\<rparr>"

definition plain_question :: request where
  "plain_question = ask_request (JObj [(''query'', JStr ''hi'')])"

definition chat_question :: request where
  "chat_question =
     ask_request (JObj [(''query'', JStr ''hi''), (''agent_type'', JStr ''coach''),
                        (''include_knowledge_base'', JBool True)])"

definition object_agent_question :: request where
  "object_agent_question =
     ask_request (JObj [(''query'', JStr ''hi''),
                        (''agent_type'', JObj [(''toString'', JNull), (''valueOf'', JNull)])])"

definition no_query_request :: request where
  "no_query_request = ask_request (JObj [(''agent_type'', JStr ''coach'')])"

definition null_body_request :: request where
  "null_body_request =
     \<lparr>req_method = ''POST'', req_url = ''/api/query/ask'', req_body = JUndefined,
      raw_json = Inr JNull\<rparr>"

definition empty_body_request :: request where
  "empty_body_request =
     \<lparr>req_method = ''POST'', req_url = ''/api/query/ask'', req_body = JUndefined,
      raw_json = Inl (SyntaxError ''Unexpected end of JSON input'')\<rparr>"

definition search_request :: "real \<Rightarrow> request" where
  "search_request limit =
     ask_request (JObj [(''query'', JStr ''hi''), (''limit'', JNum limit),
                        (''threshold'', JNum (fl (7 / 10)))])
       \<lparr>req_url := ''/api/query/search''\<rparr>"

text \<open>Requests to the documents API; an encoder and a decoder that do what the
  platform's functions do on names of letters, digits, \<^verbatim>\<open>-\<close> and \<^verbatim>\<open>.\<close>, which need
  no escapes; and two environments of the upload branch, with \<^verbatim>\<open>Math.random()\<close>
  giving \<open>2\<^sup>-\<^sup>2\<close> and \<open>2\<^sup>-\<^sup>4 + 2\<^sup>-\<^sup>3\<^sup>8\<close>.\<close>

definition upload_request :: "json \<Rightarrow> request" where
  "upload_request body =
     \<lparr>req_method = ''POST'', req_url = ''/api/documents/upload'', req_body = body,
      raw_json = Inr body\<rparr>"

definition blank_image_upload :: request where
  "blank_image_upload =
     upload_request (JObj [(''file'', JStr ''blank.png''), (''create_embeddings'', JStr ''true'')])"

definition delete_request :: "string \<Rightarrow> request" where
  "delete_request name =
     \<lparr>req_method = ''DELETE'', req_url = ''/api/documents/delete/'' @ name,
      req_body = JUndefined, raw_json = Inl (SyntaxError ''Unexpected end of JSON input'')\<rparr>"

definition processed_request :: request where
  "processed_request =
     \<lparr>req_method = ''GET'', req_url = ''/api/documents/processed'',
      req_body = JUndefined, raw_json = Inl (SyntaxError ''Unexpected end of JSON input'')\<rparr>"

definition plain_encode :: "string \<Rightarrow> js_error + string" where
  "plain_encode s = Inr s"

definition plain_decode :: "string \<Rightarrow> js_error + string" where
  "plain_decode s = (if CHR ''%'' \<in> set s then Inl (URIError ''URI malformed'') else Inr s)"

definition env0 :: upload_env where
  "env0 =
     \<lparr>t_filename = 1700000000123, rnd = 1 / 4, t_modified = 1700000000123,
      iso_time = ''2023-11-14T22:13:20.123Z''\<rparr>"

definition env_r :: upload_env where
  "env_r =
     \<lparr>t_filename = 1700000000123, rnd = 1 / 16 + 1 / 2 ^ 38, t_modified = 1700000000123,
      iso_time = ''2023-11-14T22:13:20.123Z''\<rparr>"

definition after_delete :: store where
  "after_delete =
     snd (documents_handler plain_decode env0 (delete_request ''sample-document.pdf'')
            (initial_store 0))"

definition after_deleteDocument :: "document list \<times> store" where
  "after_deleteDocument =
     deleteDocument plain_encode plain_decode env0 True ''sample-document.pdf''
       ([], initial_store 0)"

definition after_upload :: store where
  "after_upload =
     snd (documents_handler plain_decode env0 (upload_request JNull) (initial_store 0))"

text \<open>The same file dropped twice, the second time while the first upload is in
  flight; then the server answers both uploads.\<close>

definition start_system :: system where
  "start_system = \<lparr>entries = [], in_flight = [], server = initial_store 0\<rparr>"

definition dropped_twice :: system where
  "dropped_twice =
     drop_files [(''notes.pdf'', ''id-b'')] (drop_files [(''notes.pdf'', ''id-a'')] start_system)"

definition both_answered :: system where
  "both_answered =
     answer_upload plain_decode env0 ''id-b'' (answer_upload plain_decode env0 ''id-a'' dropped_twice)"

text \<open>A store of three chunks, two of them with the same vector.\<close>

definition store3 :: "embedding list" where
  "store3 =
     [\<lparr>document_id = 1, chunk_id = 7, vector = [1, 0], metadata = ''first''\<rparr>,
      \<lparr>document_id = 1, chunk_id = 3, vector = [1, 0], metadata = ''second''\<rparr>,
      \<lparr>document_id = 2, chunk_id = 5, vector = [2, 1], metadata = ''third''\<rparr>]"

definition chunks1 :: "(nat \<times> real list \<times> string) list" where
  "chunks1 = [(3, [0, 1], ''second, again''), (9, [1, 1], ''fourth'')]"

section \<open>The ask handler: what it answers\<close>

lemmas ask_eval =
  query_handler_def is_ask_def ask_def read_body_def destructure_def callGeminiAPI_def
  gemini_reply_def object_agent_question_def
  invalid_structure_def read_content_def answer_response_def degraded_response_def
  bad_request_response_def endsWith_def ask_request_def good_reply_def steady_service_def
  flaky_service_def plain_question_def chat_question_def no_query_request_def
  null_body_request_def empty_body_request_def show_nat.simps digit_char_def

text \<open>An ask request runs the ask branch, whose outcome is one of four responses.\<close>

lemma ask_route:
  "is_ask req \<Longrightarrow>
   query_handler service now req =
     (case read_body req of
        Inl e \<Rightarrow> (degraded_response now e, 0)
      | Inr body \<Rightarrow>
          (case destructure body of
             Inl e \<Rightarrow> (degraded_response now e, 0)
           | Inr (q, a, k) \<Rightarrow>
               if \<not> truthy q \<or> \<not> is_string q
               then (bad_request_response, 0)
               else (case callGeminiAPI service now q a of
                       (Inl e, calls) \<Rightarrow> (degraded_response now e, calls)
                     | (Inr aiResponse, calls) \<Rightarrow> (answer_response aiResponse a k, calls))))"
  by (auto simp: query_handler_def is_ask_def ask_def)

text \<open>\<^verbatim>\<open>callGeminiAPI\<close> makes no call when the conversion of the agent type throws, and
  one call otherwise.\<close>

lemma callGeminiAPI_calls:
  "snd (callGeminiAPI service now q a) = (if to_string_throws a then 0 else 1)"
  by (simp add: callGeminiAPI_def)

lemma get_prop_defined:
  "body \<noteq> JNull \<Longrightarrow> body \<noteq> JUndefined \<Longrightarrow> \<exists>v. get_prop body name = Inr v"
  by (cases body) auto

lemma destructure_query:
  "body \<noteq> JNull \<Longrightarrow> body \<noteq> JUndefined \<Longrightarrow> get_prop body ''query'' = Inr q \<Longrightarrow>
   \<exists>a k. destructure body = Inr (q, a, k)"
  using get_prop_defined[of body "''agent_type''"]
        get_prop_defined[of body "''include_knowledge_base''"]
  by (auto simp: destructure_def)

lemma destructure_null:
  "body = JNull \<or> body = JUndefined \<Longrightarrow> \<exists>e. destructure body = Inl e"
  by (auto simp: destructure_def)

lemma ask_outcomes:
  assumes "is_ask req"
  shows "(\<exists>e. query_handler service now req = (degraded_response now e, 0))
       \<or> query_handler service now req = (bad_request_response, 0)
       \<or> (\<exists>e. query_handler service now req = (degraded_response now e, 1))
       \<or> (\<exists>body q a k ai. read_body req = Inr body \<and> destructure body = Inr (q, a, k)
             \<and> query_handler service now req = (answer_response ai a k, 1))"
  using assms
  by (auto simp: ask_route callGeminiAPI_def split: sum.splits prod.splits if_splits)

text \<open>Every failure of the call to the generation service is an error of
  \<^verbatim>\<open>callGeminiAPI\<close>: a rejected request, a reply that is not ok, a body that is not JSON,
  a reply without candidates.\<close>

lemma generation_failures:
  "gemini_reply (FetchRejected m) now a = Inl (NetworkError m)"
  "gemini_reply (HttpNotOk st txt) now a =
     Inl (Error (''Gemini API error: '' @ show_nat st @ '' - '' @ txt))"
  "gemini_reply (BodyNotJson m) now a = Inl (SyntaxError m)"
  "gemini_reply (HttpOk (JObj [])) now a = Inl (Error ''Invalid response from Gemini API'')"
  by (simp_all add: gemini_reply_def invalid_structure_def)

text \<open>The query handler has no search endpoint: the client's
  \<^verbatim>\<open>POST /query/search\<close> gets the handler's 404, whatever the limit.\<close>

lemma search_not_served:
  "query_handler service now (search_request limit) = (query_not_found, 0)"
  by (simp add: query_handler_def is_ask_def search_request_def ask_request_def endsWith_def)

text \<open>
  Claim C1, as amended. The ask handler has no retrieval step at all. For every request
  to the ask endpoint it does not fail: it sends one response, with status 200, 400 or
  500, after at most one call to the generation service. It returns no
  \<^verbatim>\<open>no_context\<close> result: the response has no properties but \<^verbatim>\<open>success\<close>,
  \<^verbatim>\<open>error\<close>, \<^verbatim>\<open>response\<close>, \<^verbatim>\<open>knowledge_base_results\<close> and \<^verbatim>\<open>agent_used\<close>, and
  an answer (status 200) reports \<^verbatim>\<open>knowledge_base_results\<close> as 0 when the request's
  \<^verbatim>\<open>include_knowledge_base\<close> is truthy and leaves it undefined otherwise.
\<close>

theorem ask_always_responds:
  assumes "is_ask req"
  shows "snd (query_handler service now req) \<le> 1 \<and>
         res_status (fst (query_handler service now req)) \<in> {200, 400, 500} \<and>
         set (prop_names (res_body (fst (query_handler service now req))))
           \<subseteq> {''success'', ''error'', ''response'', ''knowledge_base_results'', ''agent_used''} \<and>
         (res_status (fst (query_handler service now req)) = 200 \<longrightarrow>
            (\<exists>body q a k. read_body req = Inr body \<and> destructure body = Inr (q, a, k) \<and>
               get_prop (res_body (fst (query_handler service now req))) ''knowledge_base_results''
                 = Inr (if truthy k then JNum 0 else JUndefined)))"
  using ask_outcomes[OF assms, of service now]
  by (elim disjE exE conjE)
     (simp_all add: degraded_response_def bad_request_response_def answer_response_def)

theorem ask_always_responds_witness:
  "is_ask chat_question \<and>
   snd (query_handler steady_service ''t'' chat_question) = 1 \<and>
   res_status (fst (query_handler steady_service ''t'' chat_question)) = 200 \<and>
   get_prop (res_body (fst (query_handler steady_service ''t'' chat_question)))
     ''knowledge_base_results'' = Inr (JNum 0)"
  using ask_always_responds[of chat_question steady_service "''t''"]
  by (simp add: ask_eval)

theorem ask_no_context_counterexample:
  "is_ask plain_question \<and>
   res_status (fst (query_handler steady_service ''t'' plain_question)) = 200 \<and>
   get_prop (res_body (fst (query_handler steady_service ''t'' plain_question)))
     ''knowledge_base_results'' = Inr JUndefined \<and>
   \<not> mentions ''no_context'' (res_body (fst (query_handler steady_service ''t'' plain_question)))"
  by (simp add: ask_eval)

text \<open>
  Claim C2, as amended. For every failure of \<^verbatim>\<open>callGeminiAPI\<close> the handler makes no
  retry and no backoff, and answers at once with the degraded canned response: status
  500, \<^verbatim>\<open>success: false\<close>, the error's message, and the canned apology of the agent
  \<^verbatim>\<open>system\<close>. It has then made exactly one call to the generation service, whose
  failure is the error reported, unless the request's agent type is an object that has
  no string form: then the failure is the \<^verbatim>\<open>TypeError\<close> of the lookup of the agent's
  prompt, and no call has been made.
\<close>

theorem generation_failure_one_attempt:
  assumes "is_ask req"
    and "read_body req = Inr body"
    and "destructure body = Inr (q, a, k)"
    and "truthy q" and "is_string q"
    and "fst (callGeminiAPI service now q a) = Inl e"
  shows "query_handler service now req
           = (degraded_response now e, if to_string_throws a then 0 else 1) \<and>
         (to_string_throws a \<longrightarrow>
            e = TypeError ''Cannot convert object to primitive value'') \<and>
         (\<not> to_string_throws a \<longrightarrow> gemini_reply (service 0) now a = Inl e) \<and>
         res_status (degraded_response now e) = 500 \<and>
         get_path (res_body (degraded_response now e)) [''success''] = Inr (JBool False) \<and>
         get_path (res_body (degraded_response now e)) [''error''] = Inr (JStr (message e)) \<and>
         get_path (res_body (degraded_response now e)) [''response'', ''content'']
           = Inr (JStr canned_content) \<and>
         get_path (res_body (degraded_response now e)) [''response'', ''agent'']
           = Inr (JStr ''system'')"
proof -
  have call: "callGeminiAPI service now q a = (Inl e, if to_string_throws a then 0 else 1)"
    using assms(6) callGeminiAPI_calls[of service now q a]
    by (cases "callGeminiAPI service now q a") simp
  have handler: "query_handler service now req
      = (degraded_response now e, if to_string_throws a then 0 else 1)"
    using assms(1-5) by (simp add: ask_route call)
  have thrown: "to_string_throws a \<longrightarrow>
      e = TypeError ''Cannot convert object to primitive value''"
    using assms(6) by (simp add: callGeminiAPI_def split: if_splits)
  have served: "\<not> to_string_throws a \<longrightarrow> gemini_reply (service 0) now a = Inl e"
    using assms(6) by (simp add: callGeminiAPI_def split: if_splits)
  show ?thesis using handler thrown served by (simp add: degraded_response_def)
qed

theorem generation_failure_one_attempt_witness:
  "is_ask chat_question \<and>
   truthy (JStr ''hi'') \<and> is_string (JStr ''hi'') \<and>
   fst (callGeminiAPI flaky_service ''t'' (JStr ''hi'') (JStr ''coach''))
     = Inl (Error ''Gemini API error: 503 - Service Unavailable'') \<and>
   query_handler flaky_service ''t'' chat_question
     = (degraded_response ''t'' (Error ''Gemini API error: 503 - Service Unavailable''), 1) \<and>
   is_ask object_agent_question \<and>
   fst (callGeminiAPI steady_service ''t'' (JStr ''hi'')
          (JObj [(''toString'', JNull), (''valueOf'', JNull)]))
     = Inl (TypeError ''Cannot convert object to primitive value'') \<and>
   query_handler steady_service ''t'' object_agent_question
     = (degraded_response ''t'' (TypeError ''Cannot convert object to primitive value''), 0)"
  using generation_failure_one_attempt[of chat_question
      "JObj [(''query'', JStr ''hi''), (''agent_type'', JStr ''coach''),
             (''include_knowledge_base'', JBool True)]"
      "JStr ''hi''" "JStr ''coach''" "JBool True" flaky_service "''t''"
      "Error ''Gemini API error: 503 - Service Unavailable''"]
    generation_failure_one_attempt[of object_agent_question
      "JObj [(''query'', JStr ''hi''),
             (''agent_type'', JObj [(''toString'', JNull), (''valueOf'', JNull)])]"
      "JStr ''hi''" "JObj [(''toString'', JNull), (''valueOf'', JNull)]" "JBool False"
      steady_service "''t''" "TypeError ''Cannot convert object to primitive value''"]
  by (simp add: ask_eval)

theorem ask_no_retry_counterexample:
  "snd (query_handler flaky_service ''t'' plain_question) = 1 \<and>
   res_status (fst (query_handler flaky_service ''t'' plain_question)) = 500 \<and>
   get_path (res_body (fst (query_handler flaky_service ''t'' plain_question)))
     [''response'', ''content''] = Inr (JStr canned_content) \<and>
   gemini_reply (flaky_service 1) ''t'' (JStr ''coach'')
     = Inr (JObj [(''content'', JStr ''Hello''), (''agent'', JStr ''coach''),
                  (''metadata'', JObj [(''model'', JStr ''gemini-pro''),
                                       (''timestamp'', JStr ''t''), (''usage'', JObj [])])])"
  by (simp add: ask_eval)

text \<open>
  Claim C9, as amended. For every request to the ask endpoint whose body has no
  \<^verbatim>\<open>query\<close> or whose \<^verbatim>\<open>query\<close> is not a string, the generation service is never
  called and the response has \<^verbatim>\<open>success: false\<close>. Its status is 400 when the body is a
  JSON value other than \<^verbatim>\<open>null\<close>; when the body cannot be read or parsed, or is
  \<^verbatim>\<open>null\<close>, the handler's \<^verbatim>\<open>catch\<close> answers 500 instead.
\<close>

theorem ask_without_query:
  assumes "is_ask req"
    and "\<forall>body q. read_body req = Inr body \<and> get_prop body ''query'' = Inr q \<longrightarrow> \<not> is_string q"
  shows "snd (query_handler service now req) = 0 \<and>
         get_path (res_body (fst (query_handler service now req))) [''success'']
           = Inr (JBool False) \<and>
         (case read_body req of
            Inl e \<Rightarrow> fst (query_handler service now req) = degraded_response now e
          | Inr body \<Rightarrow>
              if body = JNull \<or> body = JUndefined
              then \<exists>e. fst (query_handler service now req) = degraded_response now e
              else fst (query_handler service now req) = bad_request_response)"
proof (cases "read_body req")
  case (Inl e)
  then show ?thesis using assms(1) by (simp add: ask_route degraded_response_def)
next
  case (Inr body)
  show ?thesis
  proof (cases "body = JNull \<or> body = JUndefined")
    case True
    then obtain e where "destructure body = Inl e" using destructure_null by blast
    then show ?thesis using Inr True assms(1) by (auto simp: ask_route degraded_response_def)
  next
    case False
    then obtain q where q: "get_prop body ''query'' = Inr q"
      using get_prop_defined[of body] by blast
    then obtain a k where d: "destructure body = Inr (q, a, k)"
      using destructure_query False by blast
    have "\<not> is_string q" using assms(2) Inr q by blast
    then show ?thesis using Inr False d assms(1)
      by (simp add: ask_route bad_request_response_def)
  qed
qed

theorem ask_without_query_witness:
  "is_ask no_query_request \<and>
   read_body no_query_request = Inr (JObj [(''agent_type'', JStr ''coach'')]) \<and>
   query_handler steady_service ''t'' no_query_request = (bad_request_response, 0)"
  using ask_without_query[of no_query_request steady_service "''t''"]
  by (simp add: ask_eval)

theorem ask_null_body_counterexample:
  "is_ask null_body_request \<and>
   read_body null_body_request = Inr JNull \<and>
   res_status (fst (query_handler steady_service ''t'' null_body_request)) = 500 \<and>
   is_ask empty_body_request \<and>
   read_body empty_body_request = Inl (SyntaxError ''Unexpected end of JSON input'') \<and>
   res_status (fst (query_handler steady_service ''t'' empty_body_request)) = 500"
  by (simp add: ask_eval)

section \<open>Rounding to a double\<close>

lemmas fl_eval =
  fl_def quantum_def binade_def pow2_def round_even_def bit_length.simps scale_down.simps

text \<open>The rounded value of a number from 1 upwards is within half a unit of its last
  place, which is at most \<open>2\<^sup>-\<^sup>5\<^sup>3\<close> of the number; rounding keeps the sign.\<close>

lemma bit_length_pos: "0 < n \<Longrightarrow> 0 < bit_length n"
  by (subst bit_length.simps) simp

lemma bit_length_lower: "0 < n \<Longrightarrow> 2 ^ (bit_length n - 1) \<le> n"
proof (induction n rule: bit_length.induct)
  case (1 n)
  show ?case
  proof (cases "n div 2 = 0")
    case True
    then have "n = 1" using "1.prems" by presburger
    then show ?thesis by (simp add: bit_length.simps)
  next
    case False
    then have pos: "0 < n div 2" by simp
    have ih: "2 ^ (bit_length (n div 2) - 1) \<le> n div 2"
      using "1.IH" "1.prems" pos by simp
    have bl: "bit_length n = Suc (bit_length (n div 2))"
      using "1.prems" by (subst bit_length.simps) simp
    obtain m where m: "bit_length (n div 2) = Suc m"
      using bit_length_pos[OF pos] by (cases "bit_length (n div 2)") simp_all
    have "(2::nat) ^ (bit_length n - 1) = 2 * 2 ^ (bit_length (n div 2) - 1)"
      by (simp add: bl m)
    also have "\<dots> \<le> 2 * (n div 2)" using ih by simp
    also have "\<dots> \<le> n" by simp
    finally show ?thesis .
  qed
qed

lemma round_even_near: "\<bar>real_of_int (round_even y) - y\<bar> \<le> 1 / 2"
proof -
  have "real_of_int \<lfloor>y\<rfloor> \<le> y" "y < real_of_int \<lfloor>y\<rfloor> + 1" by linarith+
  then show ?thesis unfolding round_even_def by (simp add: abs_le_iff)
qed

lemma pow2_pos: "0 < pow2 e"
  by (simp add: pow2_def)

lemma quantum_pos: "0 < quantum x"
  by (simp add: quantum_def pow2_pos)

lemma fl_error_quantum: "\<bar>fl x - x\<bar> \<le> quantum x / 2"
proof (cases "x = 0")
  case True
  then show ?thesis using quantum_pos[of x] by (simp add: fl_def)
next
  case False
  define q where "q = quantum x"
  define y where "y = \<bar>x\<bar> / q"
  have q: "0 < q" by (simp add: q_def quantum_pos)
  have x: "x = sgn x * (y * q)" using q by (simp add: y_def sgn_real_def)
  have "fl x = sgn x * (real_of_int (round_even y) * q)"
    using False by (simp add: fl_def q_def y_def)
  then have "fl x - x = sgn x * ((real_of_int (round_even y) - y) * q)"
    using x by (metis left_diff_distrib right_diff_distrib)
  then have "\<bar>fl x - x\<bar> = \<bar>real_of_int (round_even y) - y\<bar> * q"
    using False q by (simp add: abs_mult sgn_real_def)
  also have "\<dots> \<le> 1 / 2 * q"
    using round_even_near[of y] q by (intro mult_right_mono) simp_all
  finally show ?thesis by (simp add: q_def)
qed

lemma pow2_shift: "pow2 (int b - int c) * 2 ^ c = 2 ^ b"
proof (cases "c \<le> b")
  case True
  then have "(2::real) ^ b = 2 ^ (b - c) * 2 ^ c"
    by (metis le_add_diff_inverse2 power_add)
  then show ?thesis using True by (simp add: pow2_def nat_diff_distrib')
next
  case False
  then have "(2::real) ^ c = 2 ^ (c - b) * 2 ^ b"
    by (metis le_add_diff_inverse2 nat_le_linear power_add)
  moreover have "nat (int c - int b) = c - b" by simp
  ultimately show ?thesis using False by (simp add: pow2_def)
qed

lemma quantum_le:
  assumes "1 \<le> x"
  shows "quantum x \<le> x / 2 ^ 52"
proof -
  define n where "n = nat \<lfloor>x\<rfloor>"
  define b where "b = bit_length n - 1"
  have n: "0 < n" using assms by (simp add: n_def)
  have nx: "real n \<le> x" using assms by (simp add: n_def)
  have e: "int (bit_length n) - 1 = int b"
    using bit_length_pos[OF n] by (simp add: b_def)
  have ax: "\<bar>x\<bar> = x" using assms by simp
  have q: "quantum x = pow2 (int b - 52)"
    using assms e by (simp add: quantum_def binade_def n_def ax)
  have "pow2 (int b - 52) * 2 ^ 52 = 2 ^ b"
    using pow2_shift[of b 52] by simp
  then have "quantum x = 2 ^ b / 2 ^ 52" by (simp add: q field_simps)
  also have "(2::real) ^ b \<le> real n"
    using bit_length_lower[OF n] unfolding b_def
    by (metis of_nat_le_iff of_nat_numeral of_nat_power)
  finally have "quantum x \<le> real n / 2 ^ 52" by (simp add: divide_right_mono)
  also have "\<dots> \<le> x / 2 ^ 52" using nx by (simp add: divide_right_mono)
  finally show ?thesis .
qed

lemma fl_error: "1 \<le> x \<Longrightarrow> \<bar>fl x - x\<bar> \<le> x / 2 ^ 53"
  using fl_error_quantum[of x] quantum_le[of x] by simp

lemma round_even_nonneg: "0 \<le> y \<Longrightarrow> 0 \<le> round_even y"
  unfolding round_even_def by (simp add: zero_le_floor)

lemma fl_nonneg: "0 \<le> x \<Longrightarrow> 0 \<le> fl x"
  using quantum_pos[of x] round_even_nonneg[of "\<bar>x\<bar> / quantum x"]
  by (simp add: fl_def sgn_real_def)

text \<open>The literals \<^verbatim>\<open>3.07\<close> and \<^verbatim>\<open>0.7\<close> of the source are the doubles next to
  them.\<close>

lemma literal_doubles:
  "fl (307 / 100) = 6913025428013711 / 2 ^ 51"
  "fl (7 / 10) = 3152519739159347 / 2 ^ 52"
  by (simp_all add: fl_eval)

text \<open>A tie goes to the even significand, on both sides of zero; a quotient is rounded.\<close>

lemma fl_examples:
  "fl (2 ^ 53 + 1) = 2 ^ 53"
  "fl (2 ^ 53 + 3) = 2 ^ 53 + 4"
  "fl (- (2 ^ 53 + 1)) = - (2 ^ 53)"
  "fl (1 / 10) = 3602879701896397 / 2 ^ 55"
  "fl (1700000000123 / 1000) = 7130316800515899 / 2 ^ 22"
  by (simp_all add: fl_eval)

text \<open>The sizes and totals of the two environments.\<close>

lemma env0_sizes:
  "file_size (newDocument env0) = 1524000"
  "fl 4596000 = 4596000"
  by (simp_all add: newDocument_def env0_def fl_eval)

lemma env_r_sizes:
  "fl ((1 / 16 + 1 / 2 ^ 38) * 2000000) = 125000 + 15625 / 2 ^ 31"
  "file_size (newDocument env_r) = 1149000 + 15625 / 2 ^ 31"
  "fl (3072000 + (1149000 + 15625 / 2 ^ 31)) = 4221000 + 15624 / 2 ^ 31"
  "fl (4221000 + 15624 / 2 ^ 31 - 3072000) = 1149000 + 15624 / 2 ^ 31"
  by (simp_all add: newDocument_def env_r_def fl_eval)

lemma newDocument_size_bounds:
  assumes "0 \<le> rnd env"
  shows "1 \<le> file_size (newDocument env)"
proof -
  define y where "y = 1024000 + fl (rnd env * 2000000)"
  have "0 \<le> fl (rnd env * 2000000)" using assms by (intro fl_nonneg) simp
  then have y: "1024000 \<le> y" by (simp add: y_def)
  then have "\<bar>fl y - y\<bar> \<le> y / 2 ^ 53" by (intro fl_error) simp
  then have "y - y / 2 ^ 53 \<le> fl y" by linarith
  moreover have "1 \<le> y - y / 2 ^ 53" using y by simp
  ultimately show ?thesis by (simp add: newDocument_def y_def)
qed

section \<open>The documents handler: upload and delete\<close>

lemmas docs_eval =
  documents_handler_def is_upload_def is_delete_def endsWith_def upload_request_def
  blank_image_upload_def delete_request_def processed_request_def plain_decode_def
  delete_response_def deleted_name_def split_second_def upload_response_def upload_store_def
  processed_response_def document_json_def initial_store_def mockDocuments_def mockStats_def
  newDocument_def env0_def after_delete_def after_upload_def count_of_def
  after_deleteDocument_def deleteDocument_def delete_call_def plain_encode_def
  fetchDocuments_def
  show_nat.simps digit_char_def Let_def

lemma upload_route:
  "is_upload req \<Longrightarrow>
   documents_handler dec env req s = (upload_response env, upload_store env s)"
  by (auto simp: documents_handler_def is_upload_def)

lemma delete_route:
  "is_delete req \<Longrightarrow>
   documents_handler dec env req s = (delete_response dec (req_url req), s)"
  by (auto simp: documents_handler_def is_delete_def is_upload_def)

lemma delete_call_keeps_store:
  "snd (documents_handler dec env (delete_call encoded) s) = s"
  by (simp add: documents_handler_def delete_call_def is_upload_def)

lemma count_of_set_prop: "count_of (set_prop k v kvs) k = v"
  by (induction kvs) (auto simp: count_of_def)

lemma count_of_set_prop_other:
  "k' \<noteq> k \<Longrightarrow> count_of (set_prop k v kvs) k' = count_of kvs k'"
  by (induction kvs) (auto simp: count_of_def)

text \<open>
  Claim C3, as amended. The delete branch is a stub that acknowledges the deletion and
  deletes nothing; the handlers have no Vector Store. For every delete request the
  module's state afterwards is the state before, so that every later request is
  answered as if there had been no delete, and the documents that were listed are
  listed; the response is 200 with the message that the document of the decoded name
  was deleted successfully, or 500 when the name cannot be decoded. The documents
  list's \<^verbatim>\<open>deleteDocument\<close> takes the name out of the documents kept in the browser's
  local storage and leaves the server's state as it was.
\<close>

theorem delete_only_acknowledges:
  assumes "is_delete req"
  shows "snd (documents_handler dec env req s) = s \<and>
         documents_handler dec env' req' (snd (documents_handler dec env req s))
           = documents_handler dec env' req' s \<and>
         (case dec (deleted_name (req_url req)) of
            Inr decoded \<Rightarrow>
              fst (documents_handler dec env req s)
                = \<lparr>res_status = 200,
                   res_body = JObj [(''success'', JBool True),
                     (''message'', JStr (''Document '' @ decoded @ '' deleted successfully''))]\<rparr>
          | Inl e \<Rightarrow>
              res_status (fst (documents_handler dec env req s)) = 500 \<and>
              get_path (res_body (fst (documents_handler dec env req s))) [''success'']
                = Inr (JBool False)) \<and>
         snd (deleteDocument enc dec env confirmed name st) = snd st \<and>
         fst (deleteDocument enc dec env True name st)
           = filter (\<lambda>d. filename d \<noteq> name) (fst st)"
proof -
  have same: "snd (documents_handler dec env req s) = s"
    using assms by (simp add: delete_route)
  have answer: "fst (documents_handler dec env req s) = delete_response dec (req_url req)"
    using assms by (simp add: delete_route)
  have client: "snd (deleteDocument enc dec env confirmed name st) = snd st"
    by (simp add: deleteDocument_def delete_call_keeps_store split: sum.splits)
  have kept: "fst (deleteDocument enc dec env True name st)
      = filter (\<lambda>d. filename d \<noteq> name) (fst st)"
    by (simp add: deleteDocument_def)
  have sent: "case dec (deleted_name (req_url req)) of
        Inr decoded \<Rightarrow>
          delete_response dec (req_url req)
            = \<lparr>res_status = 200,
               res_body = JObj [(''success'', JBool True),
                 (''message'', JStr (''Document '' @ decoded @ '' deleted successfully''))]\<rparr>
      | Inl e \<Rightarrow>
          res_status (delete_response dec (req_url req)) = 500 \<and>
          get_path (res_body (delete_response dec (req_url req))) [''success'']
            = Inr (JBool False)"
    by (simp add: delete_response_def split: sum.splits)
  show ?thesis unfolding answer same using sent client kept by simp
qed

theorem delete_only_acknowledges_witness:
  "is_delete (delete_request ''sample-document.pdf'') \<and>
   snd (documents_handler plain_decode env0 (delete_request ''sample-document.pdf'')
          (initial_store 0)) = initial_store 0 \<and>
   plain_decode (deleted_name (req_url (delete_request ''sample-document.pdf'')))
     = Inr ''sample-document.pdf'' \<and>
   res_status (fst (documents_handler plain_decode env0
       (delete_request ''sample-document.pdf'') (initial_store 0))) = 200 \<and>
   is_delete (delete_request ''100%.pdf'') \<and>
   plain_decode (deleted_name (req_url (delete_request ''100%.pdf'')))
     = Inl (URIError ''URI malformed'') \<and>
   res_status (fst (documents_handler plain_decode env0
       (delete_request ''100%.pdf'') (initial_store 0))) = 500"
  using delete_only_acknowledges[of "delete_request ''sample-document.pdf''" plain_decode env0
      "initial_store 0" env0 processed_request plain_encode False "''sample-document.pdf''"
      "([], initial_store 0)"]
    delete_only_acknowledges[of "delete_request ''100%.pdf''" plain_decode env0
      "initial_store 0" env0 processed_request plain_encode False "''100%.pdf''"
      "([], initial_store 0)"]
  by (simp add: is_delete_def delete_request_def deleted_name_def split_second_def
        plain_decode_def)

text \<open>
  At the module's initial state, \<^verbatim>\<open>DELETE /api/documents/delete/sample-document.pdf\<close>
  is answered 200 with the message that the document was deleted successfully, the state
  is the initial state, and the listing requested next still has the document among its
  two files. The documents list, after its \<^verbatim>\<open>deleteDocument\<close> of that file with
  nothing in the local storage, shows the document again.
\<close>

theorem delete_leaves_document_listed:
  "documents_handler plain_decode env0 (delete_request ''sample-document.pdf'') (initial_store 0)
     = (\<lparr>res_status = 200,
         res_body = JObj [(''success'', JBool True),
                          (''message'', JStr ''Document sample-document.pdf deleted successfully'')]\<rparr>,
        initial_store 0) \<and>
   map filename (upload_files (docs after_delete)) = [''sample-document.pdf''] \<and>
   get_path (res_body (fst (documents_handler plain_decode env0 processed_request after_delete)))
     [''total_files''] = Inr (JNum 2) \<and>
   mentions ''sample-document.pdf''
     (res_body (fst (documents_handler plain_decode env0 processed_request after_delete))) \<and>
   map filename
     (upload_files (fetchDocuments (fst after_deleteDocument) (snd after_deleteDocument)))
     = [''sample-document.pdf''] \<and>
   docs_total_files (fetchDocuments (fst after_deleteDocument) (snd after_deleteDocument)) = 2"
  by (simp add: docs_eval)

lemmas system_eval =
  start_system_def dropped_twice_def both_answered_def drop_files_def answer_upload_def
  onDrop_def new_entry_def uploadFile_done_def upload_finished_def upload_failed_def
  response_ok_def upload_post_def file_of_def

text \<open>
  Claim C4, as amended. Neither the upload component nor the upload handler keeps a
  guard against a submission in progress. The component gives every dropped file a new
  entry with status \<^verbatim>\<open>'uploading'\<close> and starts its upload, whatever entries there are,
  also for a file whose upload is in flight. The handler keeps no processing status:
  every request to the upload endpoint, in every state of the module, is accepted with
  status 200, \<^verbatim>\<open>success: true\<close> and \<^verbatim>\<open>processed: true\<close>, and registers one more
  document at the front of \<^verbatim>\<open>upload_files\<close>.
\<close>

theorem upload_always_accepted:
  "map uf_file (onDrop acceptedFiles prev) = map uf_file prev @ map fst acceptedFiles \<and>
   map uf_status (onDrop acceptedFiles prev)
     = map uf_status prev @ replicate (length acceptedFiles) Uploading \<and>
   in_flight (drop_files acceptedFiles sys) = in_flight sys @ map snd acceptedFiles \<and>
   (is_upload req \<longrightarrow>
      res_status (fst (documents_handler dec env req s)) = 200 \<and>
      get_path (res_body (fst (documents_handler dec env req s))) [''success'']
        = Inr (JBool True) \<and>
      get_path (res_body (fst (documents_handler dec env req s))) [''processed'']
        = Inr (JBool True) \<and>
      upload_files (docs (snd (documents_handler dec env req s)))
        = newDocument env # upload_files (docs s))"
proof -
  have "map uf_file (map new_entry acceptedFiles) = map fst acceptedFiles"
    by (simp add: new_entry_def comp_def)
  moreover have "map uf_status (map new_entry acceptedFiles)
      = replicate (length acceptedFiles) Uploading"
    by (simp add: new_entry_def comp_def map_replicate_const)
  ultimately show ?thesis
    by (simp add: onDrop_def drop_files_def upload_route upload_response_def upload_store_def
          Let_def)
qed

theorem upload_always_accepted_witness:
  "is_upload (upload_post ''notes.pdf'') \<and>
   map uf_status (onDrop [(''notes.pdf'', ''id-b'')] (entries (drop_files [(''notes.pdf'', ''id-a'')] start_system)))
     = [Uploading, Uploading] \<and>
   res_status (fst (documents_handler plain_decode env0 (upload_post ''notes.pdf'') after_upload)) = 200 \<and>
   map filename
     (upload_files (docs (snd (documents_handler plain_decode env0 (upload_post ''notes.pdf'') after_upload))))
     = [''uploaded-document-1700000000123.pdf'', ''uploaded-document-1700000000123.pdf'',
        ''sample-document.pdf'']"
  using upload_always_accepted[of "[(''notes.pdf'', ''id-b'')]"
      "entries (drop_files [(''notes.pdf'', ''id-a'')] start_system)"
      "drop_files [(''notes.pdf'', ''id-a'')] start_system"
      "upload_post ''notes.pdf''" plain_decode env0 after_upload]
  by (simp add: docs_eval system_eval)

theorem resubmission_accepted_counterexample:
  "map uf_file (entries dropped_twice) = [''notes.pdf'', ''notes.pdf''] \<and>
   map uf_status (entries dropped_twice) = [Uploading, Uploading] \<and>
   in_flight dropped_twice = [''id-a'', ''id-b''] \<and>
   map uf_status (entries both_answered) = [Success, Success] \<and>
   in_flight both_answered = [] \<and>
   map filename (upload_files (docs (server both_answered)))
     = [''uploaded-document-1700000000123.pdf'', ''uploaded-document-1700000000123.pdf'',
        ''sample-document.pdf'']"
  by (simp add: docs_eval system_eval)

text \<open>
  Claim C8, as amended. For every upload, whatever the file, ingestion succeeds: the
  response has status 200, \<^verbatim>\<open>success: true\<close> and \<^verbatim>\<open>processed: true\<close>. The handler
  runs no OCR, transcription or chunking: it reports the file type \<^verbatim>\<open>pdf\<close> and the
  fixed processing result of the sample text with \<^verbatim>\<open>chunks_created: 5\<close> and
  \<^verbatim>\<open>embeddings_generated: true\<close>, the same for every request. The upload
  component ends the file's entry with status \<^verbatim>\<open>'success'\<close>.
\<close>

theorem upload_reports_fixed_result:
  assumes "is_upload req"
  shows "res_status (fst (documents_handler dec env req s)) = 200 \<and>
         fst (documents_handler dec env req s) = upload_response env \<and>
         get_path (res_body (upload_response env)) [''success''] = Inr (JBool True) \<and>
         get_path (res_body (upload_response env)) [''processed''] = Inr (JBool True) \<and>
         get_path (res_body (upload_response env)) [''file_type''] = Inr (JStr ''pdf'') \<and>
         get_path (res_body (upload_response env)) [''processing_result'', ''text'']
           = Inr (JStr sampleText) \<and>
         get_path (res_body (upload_response env)) [''processing_result'', ''chunks_created'']
           = Inr (JNum 5) \<and>
         get_path (res_body (upload_response env)) [''processing_result'', ''embeddings_generated'']
           = Inr (JBool True) \<and>
         uf_status (upload_finished (fst (documents_handler dec env req s)) f) = Success"
  using assms
  by (simp add: upload_route upload_response_def upload_finished_def response_ok_def)

theorem upload_reports_fixed_result_witness:
  "is_upload blank_image_upload \<and>
   fst (documents_handler plain_decode env0 blank_image_upload (initial_store 0))
     = upload_response env0 \<and>
   get_path (res_body (fst (documents_handler plain_decode env0 blank_image_upload (initial_store 0))))
     [''processed''] = Inr (JBool True)"
  using upload_reports_fixed_result[of blank_image_upload plain_decode env0 "initial_store 0"]
  by (simp add: is_upload_def blank_image_upload_def upload_request_def upload_response_def)

theorem blank_image_chunks_counterexample:
  "is_upload blank_image_upload \<and>
   uf_status (upload_finished
       (fst (documents_handler plain_decode env0 blank_image_upload (initial_store 0)))
       (new_entry (''blank.png'', ''id-a''))) = Success \<and>
   res_status (fst (documents_handler plain_decode env0 blank_image_upload (initial_store 0))) = 200 \<and>
   get_path (res_body (fst (documents_handler plain_decode env0 blank_image_upload (initial_store 0))))
     [''processing_result'', ''chunks_created''] = Inr (JNum 5) \<and>
   get_path (res_body (fst (documents_handler plain_decode env0 blank_image_upload (initial_store 0))))
     [''file_type''] = Inr (JStr ''pdf'')"
  by (simp add: upload_route is_upload_def blank_image_upload_def upload_request_def
        upload_response_def upload_finished_def response_ok_def new_entry_def)

text \<open>
  Claim C10, as amended. After every upload the listing and the statistics agree on the
  counts: the listing's \<^verbatim>\<open>total_files\<close> is the number of upload files plus the number
  of scraped files, the statistics' \<^verbatim>\<open>total_files\<close> is the same number, and the count
  of the new document's file type (always \<^verbatim>\<open>pdf\<close>) has grown by one, the other counts
  staying as they were. \<^verbatim>\<open>total_size_bytes\<close> becomes the double nearest to the sum of
  the old total and the new document's size: for a total that was not negative it has
  grown by the size up to one rounding, of at most \<open>2\<^sup>-\<^sup>5\<^sup>3\<close> of the sum, and not
  always by exactly the size.
\<close>

theorem upload_keeps_counts:
  assumes "is_upload req" and "documents_handler dec env req s = (r, s')"
    and "0 \<le> rnd env" and "0 \<le> total_size_bytes (stat s)"
  shows "res_status r = 200 \<and>
         upload_files (docs s') = newDocument env # upload_files (docs s) \<and>
         scraped_files (docs s') = scraped_files (docs s) \<and>
         docs_total_files (docs s')
           = length (upload_files (docs s')) + length (scraped_files (docs s')) \<and>
         stats_total_files (stat s') = docs_total_files (docs s') \<and>
         total_size_bytes (stat s')
           = fl (total_size_bytes (stat s) + file_size (newDocument env)) \<and>
         \<bar>total_size_bytes (stat s') - (total_size_bytes (stat s) + file_size (newDocument env))\<bar>
           \<le> (total_size_bytes (stat s) + file_size (newDocument env)) / 2 ^ 53 \<and>
         count_of (file_types (stat s')) ''pdf'' = count_of (file_types (stat s)) ''pdf'' + 1 \<and>
         (\<forall>t. t \<noteq> ''pdf'' \<longrightarrow>
            count_of (file_types (stat s')) t = count_of (file_types (stat s)) t)"
proof -
  have r: "r = upload_response env" and s': "s' = upload_store env s"
    using assms by (simp_all add: upload_route)
  have total: "total_size_bytes (stat (upload_store env s))
      = fl (total_size_bytes (stat s) + file_size (newDocument env))"
    by (simp add: upload_store_def Let_def)
  have "1 \<le> total_size_bytes (stat s) + file_size (newDocument env)"
    using newDocument_size_bounds[OF assms(3)] assms(4) by linarith
  then have near: "\<bar>fl (total_size_bytes (stat s) + file_size (newDocument env))
        - (total_size_bytes (stat s) + file_size (newDocument env))\<bar>
      \<le> (total_size_bytes (stat s) + file_size (newDocument env)) / 2 ^ 53"
    by (rule fl_error)
  have counts: "res_status (upload_response env) = 200 \<and>
      upload_files (docs (upload_store env s)) = newDocument env # upload_files (docs s) \<and>
      scraped_files (docs (upload_store env s)) = scraped_files (docs s) \<and>
      docs_total_files (docs (upload_store env s))
        = length (upload_files (docs (upload_store env s)))
          + length (scraped_files (docs (upload_store env s))) \<and>
      stats_total_files (stat (upload_store env s))
        = docs_total_files (docs (upload_store env s)) \<and>
      count_of (file_types (stat (upload_store env s))) ''pdf''
        = count_of (file_types (stat s)) ''pdf'' + 1 \<and>
      (\<forall>t. t \<noteq> ''pdf'' \<longrightarrow>
         count_of (file_types (stat (upload_store env s))) t
           = count_of (file_types (stat s)) t)"
    by (simp add: upload_store_def upload_response_def Let_def count_of_set_prop
          count_of_set_prop_other)
  show ?thesis unfolding r s' using counts near by (simp only: total) blast
qed

theorem upload_keeps_counts_witness:
  "is_upload (upload_request JNull) \<and>
   0 \<le> rnd env0 \<and>
   0 \<le> total_size_bytes (stat (initial_store 0)) \<and>
   docs_total_files (docs after_upload) = 3 \<and>
   stats_total_files (stat after_upload) = 3 \<and>
   file_size (newDocument env0) = 1524000 \<and>
   total_size_bytes (stat after_upload) = 4596000 \<and>
   count_of (file_types (stat after_upload)) ''pdf'' = 3"
proof -
  have up: "is_upload (upload_request JNull)"
    by (simp add: is_upload_def upload_request_def)
  have size: "file_size (newDocument env0) = 1524000"
    by (rule env0_sizes)
  have rnd: "0 \<le> rnd env0" by (simp add: env0_def)
  have old: "total_size_bytes (stat (initial_store 0)) = 3072000"
    by (simp add: initial_store_def mockStats_def)
  have pdf: "count_of (file_types (stat (initial_store 0))) ''pdf'' = 2"
    by (simp add: initial_store_def mockStats_def count_of_def)
  have run: "documents_handler plain_decode env0 (upload_request JNull) (initial_store 0)
      = (fst (documents_handler plain_decode env0 (upload_request JNull) (initial_store 0)),
         after_upload)"
    by (simp add: after_upload_def)
  have files: "length (upload_files (docs (initial_store 0))) = 1"
      "length (scraped_files (docs (initial_store 0))) = 1"
    by (simp_all add: initial_store_def mockDocuments_def)
  show ?thesis
    using upload_keeps_counts[OF up run rnd] up rnd old pdf files size
    by (simp add: env0_sizes)
qed

text \<open>
  With \<^verbatim>\<open>Math.random()\<close> giving \<open>2\<^sup>-\<^sup>4 + 2\<^sup>-\<^sup>3\<^sup>8\<close>, the new document's size is
  \<open>1149000 + 15625 / 2\<^sup>3\<^sup>1\<close>, and the upload at the module's initial state takes
  \<^verbatim>\<open>total_size_bytes\<close> from 3072000 to \<open>4221000 + 15624 / 2\<^sup>3\<^sup>1\<close>: the total has
  grown by less than the size, also when the difference is computed in doubles.
\<close>

theorem upload_total_rounded_counterexample:
  "is_upload (upload_request JNull) \<and>
   total_size_bytes (stat (initial_store 0)) = 3072000 \<and>
   file_size (newDocument env_r) = 1149000 + 15625 / 2 ^ 31 \<and>
   total_size_bytes
     (stat (snd (documents_handler plain_decode env_r (upload_request JNull) (initial_store 0))))
     = 4221000 + 15624 / 2 ^ 31 \<and>
   total_size_bytes
     (stat (snd (documents_handler plain_decode env_r (upload_request JNull) (initial_store 0))))
     - total_size_bytes (stat (initial_store 0)) \<noteq> file_size (newDocument env_r) \<and>
   fl (total_size_bytes
     (stat (snd (documents_handler plain_decode env_r (upload_request JNull) (initial_store 0))))
     - total_size_bytes (stat (initial_store 0))) \<noteq> file_size (newDocument env_r)"
proof -
  have up: "is_upload (upload_request JNull)"
    by (simp add: is_upload_def upload_request_def)
  have old: "total_size_bytes (stat (initial_store 0)) = 3072000"
    by (simp add: initial_store_def mockStats_def)
  have size: "file_size (newDocument env_r) = 1149000 + 15625 / 2 ^ 31"
    by (rule env_r_sizes)
  have total: "total_size_bytes
      (stat (snd (documents_handler plain_decode env_r (upload_request JNull) (initial_store 0))))
      = 4221000 + 15624 / 2 ^ 31"
    using env_r_sizes(3)
    by (simp add: upload_route[OF up] upload_store_def Let_def old size)
  have diff: "fl (4221000 + 15624 / 2 ^ 31 - 3072000) = 1149000 + 15624 / 2 ^ 31"
    by (rule env_r_sizes)
  show ?thesis using diff by (simp add: up old size total)
qed

section \<open>The Chunker\<close>

lemma cut_point_bounds:
  assumes "overlap < target"
  shows "overlap < cut_point target overlap ts \<and> cut_point target overlap ts \<le> target"
proof (cases "boundary_cuts target overlap ts")
  case Nil
  then show ?thesis using assms by (simp add: cut_point_def)
next
  case (Cons c cs)
  then have "c \<in> set (boundary_cuts target overlap ts)" by simp
  then have "overlap < c \<and> c \<le> target" by (auto simp: boundary_cuts_def)
  then show ?thesis using Cons by (simp add: cut_point_def)
qed

lemma chunk_tokens_stop:
  "target \<le> overlap \<or> ts = [] \<Longrightarrow> chunk_tokens target overlap ts = []"
  by (subst chunk_tokens.simps) simp

lemma chunk_tokens_last:
  "overlap < target \<Longrightarrow> ts \<noteq> [] \<Longrightarrow> length ts \<le> target \<Longrightarrow>
   chunk_tokens target overlap ts = [ts]"
  by (subst chunk_tokens.simps) simp

lemma chunk_tokens_step:
  "overlap < target \<Longrightarrow> target < length ts \<Longrightarrow>
   chunk_tokens target overlap ts =
     take (cut_point target overlap ts) ts
     # chunk_tokens target overlap (drop (cut_point target overlap ts - overlap) ts)"
  by (subst chunk_tokens.simps) auto

text \<open>No chunk is longer than the target.\<close>

lemma chunk_tokens_length:
  "c \<in> set (chunk_tokens target overlap ts) \<Longrightarrow> length c \<le> target"
proof (induction target overlap ts rule: chunk_tokens.induct)
  case (1 target overlap ts)
  show ?case
  proof (cases "target \<le> overlap \<or> ts = []")
    case True
    then show ?thesis using "1.prems" by (simp add: chunk_tokens_stop)
  next
    case False
    then have lt: "overlap < target" and ne: "ts \<noteq> []" by auto
    show ?thesis
    proof (cases "length ts \<le> target")
      case True
      then show ?thesis using "1.prems" lt ne by (simp add: chunk_tokens_last)
    next
      case long: False
      then have step: "chunk_tokens target overlap ts =
          take (cut_point target overlap ts) ts
          # chunk_tokens target overlap (drop (cut_point target overlap ts - overlap) ts)"
        using lt by (simp add: chunk_tokens_step)
      from "1.prems" step consider
          "c = take (cut_point target overlap ts) ts"
        | "c \<in> set (chunk_tokens target overlap (drop (cut_point target overlap ts - overlap) ts))"
        by auto
      then show ?thesis
      proof cases
        case 1
        then show ?thesis using cut_point_bounds[OF lt, of ts] by (simp add: min_def)
      next
        case 2
        then show ?thesis using "1.IH"[OF False long] by simp
      qed
    qed
  qed
qed

text \<open>The first chunk of a stream longer than the overlap starts with the stream's
  first \<open>overlap\<close> tokens.\<close>

lemma chunk_tokens_head:
  assumes "overlap < target" and "overlap < length ts"
  shows "\<exists>c rest. chunk_tokens target overlap ts = c # rest \<and>
           take overlap c = take overlap ts \<and> overlap \<le> length c"
proof (cases "length ts \<le> target")
  case True
  then show ?thesis using assms by (cases ts) (auto simp: chunk_tokens_last)
next
  case False
  have "overlap < cut_point target overlap ts"
    using cut_point_bounds[OF assms(1)] by simp
  then show ?thesis using False assms by (simp add: chunk_tokens_step min_def)
qed

lemma chunk_tokens_share:
  "consecutive_share overlap (chunk_tokens target overlap ts)"
proof (induction target overlap ts rule: chunk_tokens.induct)
  case (1 target overlap ts)
  show ?case
  proof (cases "target \<le> overlap \<or> ts = []")
    case True
    then show ?thesis by (simp add: chunk_tokens_stop)
  next
    case False
    then have lt: "overlap < target" and ne: "ts \<noteq> []" by auto
    show ?thesis
    proof (cases "length ts \<le> target")
      case True
      then show ?thesis using lt ne by (simp add: chunk_tokens_last)
    next
      case long: False
      define cp where "cp = cut_point target overlap ts"
      define ts' where "ts' = drop (cp - overlap) ts"
      have cp: "overlap < cp" "cp \<le> target"
        using cut_point_bounds[OF lt, of ts] by (simp_all add: cp_def)
      have step: "chunk_tokens target overlap ts = take cp ts # chunk_tokens target overlap ts'"
        using lt long by (simp add: chunk_tokens_step cp_def ts'_def)
      have "overlap < length ts'" using cp long by (simp add: ts'_def)
      then obtain c2 rest where c2: "chunk_tokens target overlap ts' = c2 # rest"
          "take overlap c2 = take overlap ts'" "overlap \<le> length c2"
        using chunk_tokens_head[OF lt] by blast
      have "drop (length (take cp ts) - overlap) (take cp ts) = take overlap ts'"
        using cp long by (simp add: ts'_def drop_take min_def)
      then have "shares overlap (take cp ts) c2"
        using cp long c2 by (simp add: shares_def)
      moreover have "consecutive_share overlap (c2 # rest)"
        using "1.IH"[OF False long] c2(1) by (simp add: cp_def ts'_def)
      ultimately show ?thesis by (simp add: step c2(1))
    qed
  qed
qed

text \<open>Every token of the stream is in some chunk.\<close>

lemma chunk_tokens_cover:
  "overlap < target \<Longrightarrow> \<Union> (set ` set (chunk_tokens target overlap ts)) = set ts"
proof (induction target overlap ts rule: chunk_tokens.induct)
  case (1 target overlap ts)
  show ?case
  proof (cases "ts = []")
    case True
    then show ?thesis by (simp add: chunk_tokens_stop)
  next
    case ne: False
    then have go: "\<not> (target \<le> overlap \<or> ts = [])" using "1.prems" by simp
    show ?thesis
    proof (cases "length ts \<le> target")
      case True
      then show ?thesis using "1.prems" ne by (simp add: chunk_tokens_last)
    next
      case long: False
      define cp where "cp = cut_point target overlap ts"
      have step: "chunk_tokens target overlap ts =
          take cp ts # chunk_tokens target overlap (drop (cp - overlap) ts)"
        using "1.prems" long by (simp add: chunk_tokens_step cp_def)
      have rest: "\<Union> (set ` set (chunk_tokens target overlap (drop (cp - overlap) ts)))
                = set (drop (cp - overlap) ts)"
        using "1.IH"[OF go long "1.prems"] by (simp add: cp_def)
      have "set (drop cp ts) \<subseteq> set (drop (cp - overlap) ts)"
        by (rule set_drop_subset_set_drop) simp
      moreover have "set ts = set (take cp ts) \<union> set (drop cp ts)"
        by (metis append_take_drop_id set_append)
      moreover have "set (drop (cp - overlap) ts) \<subseteq> set ts"
        by (rule set_drop_subset)
      ultimately show ?thesis using rest by (auto simp: step)
    qed
  qed
qed

lemma shares_map: "shares n c1 c2 \<Longrightarrow> shares n (map f c1) (map f c2)"
  by (simp add: shares_def drop_map take_map)

lemma consecutive_share_map:
  "consecutive_share n cs \<Longrightarrow> consecutive_share n (map (map f) cs)"
  by (induction n cs rule: consecutive_share.induct) (auto simp: shares_map)

lemma consecutive_share_nth:
  "consecutive_share n cs \<Longrightarrow> Suc i < length cs \<Longrightarrow> shares n (cs ! i) (cs ! Suc i)"
proof (induction n cs arbitrary: i rule: consecutive_share.induct)
  case (1 n c1 c2 cs)
  then show ?case by (cases i) auto
qed auto

lemma map_fst_mark_span: "map fst (mark_span ws) = ws"
  by (induction ws rule: mark_span.induct) auto

lemma map_fst_token_stream: "map fst (token_stream spans) = concat spans"
  by (induction spans) (auto simp: token_stream_def map_fst_mark_span)

text \<open>
  Claim C6. For every sequence of spans and every configuration with
  \<open>overlap_tokens < target_tokens\<close>, the Chunker returns chunks, every chunk has at most
  \<open>target_tokens\<close> tokens, and every chunk but the last shares \<open>overlap_tokens\<close> tokens
  with the next one: its last \<open>overlap_tokens\<close> tokens are the first ones of the next.
  The chunks leave out no token of the spans.
\<close>

theorem chunk_bounded_overlapping:
  assumes "overlap_tokens < target_tokens"
  shows "\<exists>cs. chunk spans target_tokens overlap_tokens = Inr cs \<and>
           (\<forall>c \<in> set cs. length c \<le> target_tokens) \<and>
           (\<forall>i. Suc i < length cs \<longrightarrow> shares overlap_tokens (cs ! i) (cs ! Suc i)) \<and>
           \<Union> (set ` set cs) = set (concat spans)"
proof -
  let ?ts = "token_stream spans"
  let ?cs = "map (map fst) (chunk_tokens target_tokens overlap_tokens ?ts)"
  have 1: "chunk spans target_tokens overlap_tokens = Inr ?cs"
    using assms by (simp add: chunk_def)
  have 2: "\<forall>c \<in> set ?cs. length c \<le> target_tokens"
    using chunk_tokens_length by auto
  have "consecutive_share overlap_tokens ?cs"
    by (rule consecutive_share_map) (rule chunk_tokens_share)
  then have 3: "\<forall>i. Suc i < length ?cs \<longrightarrow> shares overlap_tokens (?cs ! i) (?cs ! Suc i)"
    using consecutive_share_nth by blast
  have "\<Union> (set ` set ?cs) = fst ` \<Union> (set ` set (chunk_tokens target_tokens overlap_tokens ?ts))"
    by auto
  also have "\<dots> = fst ` set ?ts"
    using assms by (simp add: chunk_tokens_cover)
  also have "\<dots> = set (concat spans)"
    by (metis map_fst_token_stream set_map)
  finally have 4: "\<Union> (set ` set ?cs) = set (concat spans)" .
  show ?thesis using 1 2 3 4 by blast
qed

theorem chunk_bounded_overlapping_witness:
  "(1::nat) < 4 \<and>
   chunk [[''a'', ''b'', ''c''], [''d'', ''e'', ''f'', ''g'']] 4 1
     = Inr [[''a'', ''b'', ''c''], [''c'', ''d'', ''e'', ''f''], [''f'', ''g'']] \<and>
   shares 1 [''a'', ''b'', ''c''] [''c'', ''d'', ''e'', ''f''] \<and>
   shares 1 [''c'', ''d'', ''e'', ''f''] [''f'', ''g''] \<and>
   chunk [[''a'', ''b'', ''c'']] 1 1 = Inl InvalidConfiguration"
proof -
  have run: "chunk [[''a'', ''b'', ''c''], [''d'', ''e'', ''f'', ''g'']] 4 1
      = Inr [[''a'', ''b'', ''c''], [''c'', ''d'', ''e'', ''f''], [''f'', ''g'']]"
    by code_simp
  have lt: "(1::nat) < 4" by simp
  have sh1: "shares 1 [''a'', ''b'', ''c''] [''c'', ''d'', ''e'', ''f'']"
    by (simp add: shares_def)
  have sh2: "shares 1 [''c'', ''d'', ''e'', ''f''] [''f'', ''g'']"
    by (simp add: shares_def)
  have bad: "chunk [[''a'', ''b'', ''c'']] 1 1 = Inl InvalidConfiguration"
    by (simp add: chunk_def)
  show ?thesis
    using chunk_bounded_overlapping[OF lt, of "[[''a'', ''b'', ''c''], [''d'', ''e'', ''f'', ''g'']]"]
      run lt sh1 sh2 bad
    by blast
qed

section \<open>The Vector Store\<close>

lemma ranks_before_total: "ranks_before a b \<or> ranks_before b a"
  by (auto simp: ranks_before_def)

lemma ranks_before_trans: "ranks_before a b \<Longrightarrow> ranks_before b c \<Longrightarrow> ranks_before a c"
  by (auto simp: ranks_before_def)

lemma set_insert_hit: "set (insert_hit h xs) = insert h (set xs)"
  by (induction xs) auto

lemma length_insert_hit: "length (insert_hit h xs) = Suc (length xs)"
  by (induction xs) auto

lemma sorted_insert_hit:
  "sorted_wrt ranks_before xs \<Longrightarrow> sorted_wrt ranks_before (insert_hit h xs)"
proof (induction xs)
  case Nil
  then show ?case by simp
next
  case (Cons x xs)
  show ?case
  proof (cases "ranks_before h x")
    case True
    then have "\<forall>y \<in> set xs. ranks_before h y"
      using Cons.prems ranks_before_trans by auto
    then show ?thesis using True Cons.prems by simp
  next
    case False
    then have "ranks_before x h" using ranks_before_total by blast
    then show ?thesis using False Cons by (auto simp: set_insert_hit)
  qed
qed

lemma sorted_rank_hits: "sorted_wrt ranks_before (rank_hits hs)"
  by (induction hs) (auto simp: sorted_insert_hit)

lemma set_rank_hits: "set (rank_hits hs) = set hs"
  by (induction hs) (auto simp: set_insert_hit)

lemma length_rank_hits: "length (rank_hits hs) = length hs"
  by (induction hs) (auto simp: length_insert_hit)

text \<open>
  Claim C5. For every vector and every \<open>k > 0\<close>, the query returns at most \<open>k\<close> hits; of
  any two hits the earlier one has the higher or the same score, and with the same score
  the lower or the same chunk id; every hit is a scored record of the store, and there
  are \<open>k\<close> of them when the store has that many. For every \<open>k \<le> 0\<close> the query fails
  with \<open>InvalidArgument\<close>.
\<close>

theorem query_top_k:
  "(0 < k \<longrightarrow>
      (\<exists>hits. query sim st v k flt = Inr hits \<and>
         length hits \<le> nat k \<and>
         sorted_wrt (\<lambda>a b. snd b \<le> snd a \<and> (snd a = snd b \<longrightarrow> fst a \<le> fst b)) hits \<and>
         set hits \<subseteq> set (candidates sim st v flt) \<and>
         length hits = min (nat k) (length (candidates sim st v flt)))) \<and>
   (k \<le> 0 \<longrightarrow> query sim st v k flt = Inl InvalidArgument)"
proof -
  let ?ranked = "rank_hits (candidates sim st v flt)"
  have "sorted_wrt ranks_before (take (nat k) ?ranked)"
    using sorted_rank_hits sorted_wrt_take by blast
  then have "sorted_wrt (\<lambda>a b. snd b \<le> snd a \<and> (snd a = snd b \<longrightarrow> fst a \<le> fst b))
               (take (nat k) ?ranked)"
    by (rule sorted_wrt_mono_rel[rotated]) (auto simp: ranks_before_def)
  moreover have "set (take (nat k) ?ranked) \<subseteq> set (candidates sim st v flt)"
    using set_take_subset[of "nat k" ?ranked] by (simp add: set_rank_hits)
  ultimately show ?thesis
    by (auto simp: query_def length_rank_hits)
qed

theorem query_top_k_witness:
  "query dot store3 [1, 1] 3 None = Inr [(5, 3), (3, 1), (7, 1)] \<and>
   query dot store3 [1, 1] 2 None = Inr [(5, 3), (3, 1)] \<and>
   query dot store3 [1, 1] 0 None = Inl InvalidArgument \<and>
   query dot store3 [1, 1] (- 1) None = Inl InvalidArgument"
  using query_top_k[of 2 dot store3 "[1, 1]" None] query_top_k[of 0 dot store3 "[1, 1]" None]
  by (simp add: query_def candidates_def store3_def dot_def ranks_before_def)

lemma has_chunk_iff: "has_chunk c st \<longleftrightarrow> c \<in> chunk_id ` set st"
  by (auto simp: has_chunk_def list_ex_iff)

lemma set_upsert:
  "set (upsert e st) = {x \<in> set st. chunk_id x \<noteq> chunk_id e} \<union> {e}"
  by (auto simp: upsert_def has_chunk_iff image_iff)

lemma ids_upsert: "chunk_id ` set (upsert e st) = insert (chunk_id e) (chunk_id ` set st)"
  by (auto simp: set_upsert)

lemma length_upsert_present: "has_chunk (chunk_id e) st \<Longrightarrow> length (upsert e st) = length st"
  by (simp add: upsert_def)

lemma last_upsert_None: "last_upsert es c = None \<longleftrightarrow> c \<notin> chunk_id ` set es"
  by (induction es) (auto split: option.splits)

text \<open>When every chunk id of the upserts is in the store already, the upserts settle
  the store's records in place.\<close>

lemma fold_upsert_present:
  "chunk_id ` set es \<subseteq> chunk_id ` set st \<Longrightarrow> fold upsert es st = map (settle es) st"
proof (induction es arbitrary: st)
  case Nil
  then show ?case by (simp add: settle_def)
next
  case (Cons e es)
  let ?r = "\<lambda>x. if chunk_id x = chunk_id e then e else x"
  have present: "has_chunk (chunk_id e) st" using Cons.prems by (auto simp: has_chunk_iff)
  then have u: "upsert e st = map ?r st" by (simp add: upsert_def)
  have "chunk_id ` set es \<subseteq> chunk_id ` set (upsert e st)"
    using Cons.prems by (auto simp: ids_upsert)
  then have "fold upsert es (upsert e st) = map (settle es) (upsert e st)"
    by (rule Cons.IH)
  also have "\<dots> = map (settle es \<circ> ?r) st" by (simp add: u)
  also have "\<dots> = map (settle (e # es)) st"
  proof (rule map_cong[OF refl])
    fix x
    show "(settle es \<circ> ?r) x = settle (e # es) x"
      by (auto simp: settle_def split: option.splits)
  qed
  finally show ?case by simp
qed

lemma fold_upsert_untouched:
  "x \<in> set (fold upsert es st) \<Longrightarrow> chunk_id x \<notin> chunk_id ` set es \<Longrightarrow> x \<in> set st"
proof (induction es arbitrary: st)
  case Nil
  then show ?case by simp
next
  case (Cons e es)
  then have "x \<in> set (upsert e st)" by auto
  then show ?case using Cons.prems(2) by (auto simp: set_upsert)
qed

text \<open>After the upserts, every record with one of their chunk ids is the last one
  upserted with that id.\<close>

lemma fold_upsert_settled:
  "x \<in> set (fold upsert es st) \<Longrightarrow> chunk_id x \<in> chunk_id ` set es \<Longrightarrow>
   last_upsert es (chunk_id x) = Some x"
proof (induction es arbitrary: st)
  case Nil
  then show ?case by simp
next
  case (Cons e es)
  have mem: "x \<in> set (fold upsert es (upsert e st))" using Cons.prems(1) by simp
  show ?case
  proof (cases "chunk_id x \<in> chunk_id ` set es")
    case True
    then have "last_upsert es (chunk_id x) = Some x" using Cons.IH[OF mem] by simp
    then show ?thesis by simp
  next
    case False
    then have same: "chunk_id x = chunk_id e" using Cons.prems(2) by auto
    have "x \<in> set (upsert e st)" using fold_upsert_untouched[OF mem False] .
    then have "x = e" using same by (auto simp: set_upsert)
    moreover have "last_upsert es (chunk_id x) = None"
      using False by (simp add: last_upsert_None)
    ultimately show ?thesis by simp
  qed
qed

lemma ids_fold_upsert:
  "chunk_id ` set (fold upsert es st) = chunk_id ` set st \<union> chunk_id ` set es"
  by (induction es arbitrary: st) (auto simp: ids_upsert)

lemma fold_upsert_twice: "fold upsert es (fold upsert es st) = fold upsert es st"
proof -
  let ?once = "fold upsert es st"
  have "chunk_id ` set es \<subseteq> chunk_id ` set ?once" by (simp add: ids_fold_upsert)
  then have "fold upsert es ?once = map (settle es) ?once" by (rule fold_upsert_present)
  also have "\<dots> = map (\<lambda>x. x) ?once"
  proof (rule map_cong[OF refl])
    fix x assume x: "x \<in> set ?once"
    show "settle es x = x"
    proof (cases "chunk_id x \<in> chunk_id ` set es")
      case True
      then show ?thesis using fold_upsert_settled[OF x] by (simp add: settle_def)
    next
      case False
      then show ?thesis by (simp add: settle_def last_upsert_None[THEN iffD2])
    qed
  qed
  finally show ?thesis by simp
qed

lemma upsert_document_fold:
  "upsert_document d chunks st = fold upsert (map (make_embedding d) chunks) st"
  by (simp add: upsert_document_def fold_map comp_def)

text \<open>
  Claim C7. Upserting the same document with the same chunks a second time leaves the
  whole store as it is after the first time, so the document's records and the answer
  to every query are unchanged. Upserting a chunk id that the store has replaces the
  record: the store keeps its length, has the new record, and has no other record with
  that chunk id.
\<close>

theorem upsert_document_idempotent:
  "upsert_document d chunks (upsert_document d chunks st) = upsert_document d chunks st \<and>
   document_content d (upsert_document d chunks (upsert_document d chunks st))
     = document_content d (upsert_document d chunks st) \<and>
   query sim (upsert_document d chunks (upsert_document d chunks st)) v k flt
     = query sim (upsert_document d chunks st) v k flt \<and>
   (has_chunk (chunk_id e) st \<longrightarrow>
      length (upsert e st) = length st \<and> e \<in> set (upsert e st) \<and>
      (\<forall>x \<in> set (upsert e st). chunk_id x = chunk_id e \<longrightarrow> x = e))"
proof -
  have "upsert_document d chunks (upsert_document d chunks st) = upsert_document d chunks st"
    by (simp add: upsert_document_fold fold_upsert_twice)
  then show ?thesis
    by (auto simp: length_upsert_present set_upsert)
qed

theorem upsert_document_idempotent_witness:
  "has_chunk 3 store3 \<and>
   map chunk_id (upsert_document 1 chunks1 store3) = [7, 3, 5, 9] \<and>
   map metadata (upsert_document 1 chunks1 store3)
     = [''first'', ''second, again'', ''third'', ''fourth''] \<and>
   upsert_document 1 chunks1 (upsert_document 1 chunks1 store3)
     = upsert_document 1 chunks1 store3 \<and>
   length (upsert (make_embedding 1 (3, [0, 1], ''second, again'')) store3) = 3"
  using upsert_document_idempotent[of 1 chunks1 store3 dot "[1, 1]" 2 None
      "make_embedding 1 (3, [0, 1], ''second, again'')"]
  by (simp add: upsert_document_def upsert_def has_chunk_def make_embedding_def store3_def
        chunks1_def)

end
